theory Spec2Isabelle
  imports Complex_Main
begin

section \<open>Data of the location subsystem\<close>

text \<open>
  The members of expo-location's \<open>Location.Accuracy\<close> enumeration, in increasing order of
  precision. \<open>LocationService.ts\<close> and \<open>LocationErrorHandling.ts\<close> name three of them:
  \<open>Low\<close>, \<open>Balanced\<close> and \<open>High\<close>.
\<close>

datatype Accuracy = Lowest | Low | Balanced | High | Highest | BestForNavigation

fun accuracy_rank :: "Accuracy \<Rightarrow> nat" where
  "accuracy_rank Lowest = 1"
| "accuracy_rank Low = 2"
| "accuracy_rank Balanced = 3"
| "accuracy_rank High = 4"
| "accuracy_rank Highest = 5"
| "accuracy_rank BestForNavigation = 6"

record Coords =
  latitude :: real
  longitude :: real

record LocationObject =
  coords :: Coords
  timestamp :: int

text \<open>What an awaited call can reject with.\<close>

datatype Exn = LocationError | NetworkError

text \<open>
  The external calls a run performs, in the order it performs them. The list is only
  written, never read back by the code: it records what a run did.
\<close>

datatype Event =
    GetPosition Accuracy bool
  | SetItem LocationObject bool
  | GetItem bool
  | UpdateDriverLocation string real real bool
  | RemoveSubscription bool
  | HasStartedLocationUpdates "bool option"
  | StopLocationUpdates bool
  | GetUser
  | Delay int
  | HandleLocationError
  | ShowLocationErrorAlert

text \<open>
  The module-level variables of \<open>LocationService.ts\<close> (\<open>locationSubscription\<close> to
  \<open>appState\<close>), the AsyncStorage item \<open>lastKnownLocation\<close>, the clock, the armed timers
  (handle and due time) and the record of external calls.
\<close>

record World =
  locationSubscription :: bool
  isTracking :: bool
  lastUpdateTime :: int
  pendingImmediateUpdate :: bool
  locationUpdateTimeout :: "nat option"
  retryCount :: int
  appState :: string
  storage :: "LocationObject option"
  now :: int
  timers :: "(nat \<times> int) list"
  nextTimerId :: nat
  trace :: "Event list"

text \<open>The fields of a stored \<open>User\<close> the location code reads: \<open>id\<close> and \<open>role\<close>.\<close>

record User =
  uid :: string
  role :: string

text \<open>
  What the device, the network and the storage answer. Each answer is a function of the
  number of external calls made before it (the length of the trace), so that a run is
  determined by its environment. \<open>gps n acc = None\<close>: the position request rejects;
  \<open>net n = False\<close>: \<open>updateDriverLocation\<close> rejects (it rethrows every error of the
  HTTP client); \<open>hasStarted n = None\<close>: \<open>hasStartedLocationUpdatesAsync\<close> rejects;
  \<open>storedUser n\<close>: what \<open>StorageService.getUser\<close> resolves to (null when it fails).
\<close>

record Env =
  gps :: "nat \<Rightarrow> Accuracy \<Rightarrow> LocationObject option"
  net :: "nat \<Rightarrow> bool"
  setItemOk :: "nat \<Rightarrow> bool"
  getItemOk :: "nat \<Rightarrow> bool"
  removeOk :: "nat \<Rightarrow> bool"
  hasStarted :: "nat \<Rightarrow> bool option"
  stopUpdatesOk :: "nat \<Rightarrow> bool"
  storedUser :: "nat \<Rightarrow> User option"
  platformOS :: string

section \<open>Constants of LocationService.ts\<close>

definition FOREGROUND_INTERVAL :: int where
  "FOREGROUND_INTERVAL = 2 * 60 * 1000"

definition BACKGROUND_INTERVAL :: int where
  "BACKGROUND_INTERVAL = 10 * 60 * 1000"

definition AVAILABLE_DRIVER_INTERVAL :: int where
  "AVAILABLE_DRIVER_INTERVAL = 5 * 60 * 1000"

definition UNAVAILABLE_DRIVER_INTERVAL :: int where
  "UNAVAILABLE_DRIVER_INTERVAL = 15 * 60 * 1000"

definition NORMAL_ACCURACY :: Accuracy where
  "NORMAL_ACCURACY = Balanced"

definition HIGH_ACCURACY :: Accuracy where
  "HIGH_ACCURACY = High"

definition LOW_ACCURACY :: Accuracy where
  "LOW_ACCURACY = Low"

definition AVAILABLE_DISTANCE_FILTER :: int where
  "AVAILABLE_DISTANCE_FILTER = 50"

definition UNAVAILABLE_DISTANCE_FILTER :: int where
  "UNAVAILABLE_DISTANCE_FILTER = 250"

definition MAX_RETRIES :: int where
  "MAX_RETRIES = 3"

text \<open>The module state as the declarations at the top of the file leave it.\<close>

definition initialWorld :: "LocationObject option \<Rightarrow> int \<Rightarrow> World" where
  "initialWorld stored t =
     \<lparr>locationSubscription = False, isTracking = False, lastUpdateTime = 0,
      pendingImmediateUpdate = False, locationUpdateTimeout = None, retryCount = 0,
      appState = ''active'', storage = stored, now = t, timers = [], nextTimerId = 0,
      trace = []\<rparr>"

section \<open>Tracking parameters\<close>

record TrackingParameters =
  accuracy :: Accuracy
  timeInterval :: int
  distanceInterval :: int

text \<open>The three conditional expressions of \<open>startForegroundTracking\<close>.\<close>

definition foregroundParameters :: "bool \<Rightarrow> TrackingParameters" where
  "foregroundParameters isAvailable =
     \<lparr>accuracy = (if isAvailable then NORMAL_ACCURACY else LOW_ACCURACY),
      timeInterval = (if isAvailable then FOREGROUND_INTERVAL else BACKGROUND_INTERVAL),
      distanceInterval =
        (if isAvailable then AVAILABLE_DISTANCE_FILTER else UNAVAILABLE_DISTANCE_FILTER)\<rparr>"

text \<open>The three conditional expressions of \<open>startBackgroundTracking\<close>.\<close>

definition backgroundParameters :: "bool \<Rightarrow> TrackingParameters" where
  "backgroundParameters isAvailable =
     \<lparr>accuracy = (if isAvailable then NORMAL_ACCURACY else LOW_ACCURACY),
      timeInterval =
        (if isAvailable then AVAILABLE_DRIVER_INTERVAL else UNAVAILABLE_DRIVER_INTERVAL),
      distanceInterval =
        (if isAvailable then AVAILABLE_DISTANCE_FILTER else UNAVAILABLE_DISTANCE_FILTER)\<rparr>"

section \<open>External calls\<close>

definition getCurrentPositionAsync ::
  "Env \<Rightarrow> Accuracy \<Rightarrow> World \<Rightarrow> (Exn + LocationObject) \<times> World" where
  "getCurrentPositionAsync env acc w =
     (case gps env (length (trace w)) acc of
        None \<Rightarrow> (Inl LocationError, w\<lparr>trace := trace w @ [GetPosition acc False]\<rparr>)
      | Some location \<Rightarrow> (Inr location, w\<lparr>trace := trace w @ [GetPosition acc True]\<rparr>))"

definition updateDriverLocation ::
  "Env \<Rightarrow> string \<Rightarrow> real \<Rightarrow> real \<Rightarrow> World \<Rightarrow> (Exn + unit) \<times> World" where
  "updateDriverLocation env driverId lat lng w =
     (if net env (length (trace w))
      then (Inr (), w\<lparr>trace := trace w @ [UpdateDriverLocation driverId lat lng True]\<rparr>)
      else (Inl NetworkError,
            w\<lparr>trace := trace w @ [UpdateDriverLocation driverId lat lng False]\<rparr>))"

text \<open>
  \<open>setTimeout\<close> arms a timer and returns its handle; \<open>clearTimeout\<close> disarms it (and does
  nothing to a timer that has fired).
\<close>

definition setTimeout :: "int \<Rightarrow> World \<Rightarrow> nat \<times> World" where
  "setTimeout ms w =
     (nextTimerId w,
      w\<lparr>timers := timers w @ [(nextTimerId w, now w + ms)],
        nextTimerId := Suc (nextTimerId w)\<rparr>)"

definition clearTimeout :: "nat \<Rightarrow> World \<Rightarrow> World" where
  "clearTimeout h w = w\<lparr>timers := filter (\<lambda>(i, due). i \<noteq> h) (timers w)\<rparr>"

text \<open>
  Time passes: every armed timer that is due fires. The only timer callback of the module
  is the one \<open>requestImmediateUpdate\<close> installs, which sets
  \<open>pendingImmediateUpdate = false\<close>.
\<close>

definition advanceTime :: "int \<Rightarrow> World \<Rightarrow> World" where
  "advanceTime ms w =
     (let t = now w + ms in
      w\<lparr>now := t,
        timers := filter (\<lambda>(i, due). t < due) (timers w),
        pendingImmediateUpdate :=
          (if filter (\<lambda>(i, due). due \<le> t) (timers w) = [] then pendingImmediateUpdate w
           else False)\<rparr>)"

section \<open>The fallback store\<close>

text \<open>
  \<open>saveLastKnownLocation\<close>: one \<open>AsyncStorage.setItem\<close> of the sample's coordinates and
  timestamp; a rejected write is logged and swallowed.
\<close>

definition saveLastKnownLocation :: "Env \<Rightarrow> LocationObject \<Rightarrow> World \<Rightarrow> World" where
  "saveLastKnownLocation env location w =
     (if setItemOk env (length (trace w))
      then w\<lparr>storage := Some location, trace := trace w @ [SetItem location True]\<rparr>
      else w\<lparr>trace := trace w @ [SetItem location False]\<rparr>)"

text \<open>\<open>getLastKnownLocation\<close>: the stored sample, or null when nothing is stored or the read rejects.\<close>

definition getLastKnownLocation :: "Env \<Rightarrow> World \<Rightarrow> LocationObject option \<times> World" where
  "getLastKnownLocation env w =
     (if getItemOk env (length (trace w))
      then (storage w, w\<lparr>trace := trace w @ [GetItem True]\<rparr>)
      else (None, w\<lparr>trace := trace w @ [GetItem False]\<rparr>))"

section \<open>The foreground watch callback\<close>

text \<open>
  The callback \<open>startForegroundTracking\<close> hands to \<open>watchPositionAsync\<close>: the sample is
  saved, then sent; \<open>lastUpdateTime\<close> is set after a successful send; an error of the send
  is caught and logged.
\<close>

definition watchCallback :: "Env \<Rightarrow> string \<Rightarrow> LocationObject \<Rightarrow> World \<Rightarrow> World" where
  "watchCallback env userId location w =
     (let w1 = saveLastKnownLocation env location w in
      case updateDriverLocation env userId (latitude (coords location))
             (longitude (coords location)) w1 of
        (Inr u, w2) \<Rightarrow> w2\<lparr>lastUpdateTime := now w2\<rparr>
      | (Inl e, w2) \<Rightarrow> w2)"

definition getLastUpdateTime :: "World \<Rightarrow> int" where
  "getLastUpdateTime w = lastUpdateTime w"

section \<open>The background location task\<close>

datatype BackgroundFetchResult = NewData | NoData | Failed

text \<open>
  The handler of \<open>LOCATION_TRACKING_TASK\<close>. \<open>error\<close>: the task was called with an error;
  \<open>data\<close>: the locations it was called with, if any. The first location is saved, then
  sent when the stored user is a driver.
\<close>

definition locationTrackingTask ::
  "Env \<Rightarrow> bool \<Rightarrow> LocationObject list option \<Rightarrow> World \<Rightarrow> BackgroundFetchResult \<times> World" where
  "locationTrackingTask env error data w =
     (if error then (Failed, w)
      else case data of
             None \<Rightarrow> (NoData, w)
           | Some [] \<Rightarrow> (NoData, w)
           | Some (location # rest) \<Rightarrow>
               (let w1 = saveLastKnownLocation env location w;
                    user = storedUser env (length (trace w1));
                    w2 = w1\<lparr>trace := trace w1 @ [GetUser]\<rparr>;
                    (sent, w3) =
                      (case user of
                         None \<Rightarrow> (Inr (), w2)
                       | Some u \<Rightarrow>
                           if uid u = [] then (Inr (), w2)
                           else if role u = ''driver''
                           then updateDriverLocation env (uid u) (latitude (coords location))
                                  (longitude (coords location)) w2
                           else (Inr (), w2))
                in case sent of
                     Inl e \<Rightarrow> (Failed, w3)
                   | Inr u \<Rightarrow> (NewData, w3\<lparr>lastUpdateTime := now w3\<rparr>)))"

section \<open>stopTracking\<close>

text \<open>
  The whole body stands in one \<open>try\<close>: an awaited call that rejects skips the rest,
  the timer included.
\<close>

definition stopTracking :: "Env \<Rightarrow> World \<Rightarrow> World" where
  "stopTracking env w =
     (case (if locationSubscription w
            then (if removeOk env (length (trace w))
                  then Inr (w\<lparr>locationSubscription := False,
                              trace := trace w @ [RemoveSubscription True]\<rparr>)
                  else Inl (w\<lparr>trace := trace w @ [RemoveSubscription False]\<rparr>))
            else Inr w) of
        Inl w1 \<Rightarrow> w1
      | Inr w1 \<Rightarrow>
          (let isBgTaskRunning = hasStarted env (length (trace w1));
               w2 = w1\<lparr>trace := trace w1 @ [HasStartedLocationUpdates isBgTaskRunning]\<rparr>
           in case isBgTaskRunning of
                None \<Rightarrow> w2
              | Some running \<Rightarrow>
                  (case (if running
                         then (if stopUpdatesOk env (length (trace w2))
                               then Inr (w2\<lparr>trace := trace w2 @ [StopLocationUpdates True]\<rparr>)
                               else Inl (w2\<lparr>trace := trace w2 @ [StopLocationUpdates False]\<rparr>))
                         else Inr w2) of
                     Inl w3 \<Rightarrow> w3
                   | Inr w3 \<Rightarrow>
                       (let w4 = w3\<lparr>isTracking := False\<rparr>
                        in case locationUpdateTimeout w4 of
                             None \<Rightarrow> w4
                           | Some h \<Rightarrow> (clearTimeout h w4)\<lparr>locationUpdateTimeout := None\<rparr>))))"

section \<open>requestImmediateUpdate\<close>

text \<open>The first statements of the function: the flag is set and the counter reset.\<close>

definition requestImmediateUpdate_entry :: "World \<Rightarrow> World" where
  "requestImmediateUpdate_entry w = w\<lparr>pendingImmediateUpdate := True, retryCount := 0\<rparr>"

text \<open>
  The inner \<open>try\<close> taken when the app is active. \<open>True\<close>: the function returns true
  from inside the block; \<open>False\<close>: an error was caught and control falls through.
\<close>

definition foregroundAttempt :: "Env \<Rightarrow> string \<Rightarrow> World \<Rightarrow> bool \<times> World" where
  "foregroundAttempt env userId w =
     (case getCurrentPositionAsync env HIGH_ACCURACY w of
        (Inl e, w1) \<Rightarrow> (False, w1)
      | (Inr location, w1) \<Rightarrow>
          (let w2 = saveLastKnownLocation env location w1 in
           case updateDriverLocation env userId (latitude (coords location))
                  (longitude (coords location)) w2 of
             (Inl e, w3) \<Rightarrow> (False, w3)
           | (Inr u, w3) \<Rightarrow>
               (True, w3\<lparr>lastUpdateTime := now w3, pendingImmediateUpdate := False\<rparr>)))"

text \<open>
  The second inner \<open>try\<close> (iOS only). An empty \<open>userId\<close> is falsy: nothing is sent and
  control falls through.
\<close>

definition manualAttempt :: "Env \<Rightarrow> string \<Rightarrow> World \<Rightarrow> bool \<times> World" where
  "manualAttempt env userId w =
     (if platformOS env = ''ios'' then
        (case getCurrentPositionAsync env HIGH_ACCURACY w of
           (Inl e, w1) \<Rightarrow> (False, w1)
         | (Inr location, w1) \<Rightarrow>
             (let w2 = saveLastKnownLocation env location w1 in
              if userId = [] then (False, w2)
              else (case updateDriverLocation env userId (latitude (coords location))
                           (longitude (coords location)) w2 of
                      (Inl e, w3) \<Rightarrow> (False, w3)
                    | (Inr u, w3) \<Rightarrow> (True, w3\<lparr>pendingImmediateUpdate := False\<rparr>))))
      else (False, w))"

text \<open>
  The rest of the outer \<open>try\<close>: the flag is set again, the stored sample (if any) is sent,
  an earlier timer is cleared and the 60 second timer armed. An error of the send is not
  caught here: it reaches the outer \<open>catch\<close>.
\<close>

definition deferToFlag :: "Env \<Rightarrow> string \<Rightarrow> World \<Rightarrow> (Exn + bool) \<times> World" where
  "deferToFlag env userId w =
     (let w1 = w\<lparr>pendingImmediateUpdate := True\<rparr>;
          (fallbackLocation, w2) = getLastKnownLocation env w1;
          (sent, w3) =
            (case fallbackLocation of
               None \<Rightarrow> (Inr (), w2)
             | Some l \<Rightarrow>
                 updateDriverLocation env userId (latitude (coords l)) (longitude (coords l)) w2)
      in case sent of
           Inl e \<Rightarrow> (Inl e, w3)
         | Inr u \<Rightarrow>
             (let w4 = (case locationUpdateTimeout w3 of
                          None \<Rightarrow> w3
                        | Some h \<Rightarrow> clearTimeout h w3);
                  (h', w5) = setTimeout 60000 w4
              in (Inr True, w5\<lparr>locationUpdateTimeout := Some h'\<rparr>)))"

text \<open>The body of the outer \<open>try\<close>.\<close>

definition requestImmediateUpdate_try :: "Env \<Rightarrow> string \<Rightarrow> World \<Rightarrow> (Exn + bool) \<times> World" where
  "requestImmediateUpdate_try env userId w =
     (let (done1, w1) =
            (if appState w = ''active'' then foregroundAttempt env userId w else (False, w))
      in if done1 then (Inr True, w1)
         else (let (done2, w2) = manualAttempt env userId w1
               in if done2 then (Inr True, w2) else deferToFlag env userId w2))"

text \<open>The outer \<open>catch\<close>, with its guard on \<open>retryCount\<close>.\<close>

definition requestImmediateUpdate_catch :: "Env \<Rightarrow> string \<Rightarrow> World \<Rightarrow> bool \<times> World" where
  "requestImmediateUpdate_catch env userId w =
     (let (done, w1) =
            (if MAX_RETRIES \<le> retryCount w then
               (case getLastKnownLocation env w of
                  (None, w1) \<Rightarrow> (False, w1)
                | (Some l, w1) \<Rightarrow>
                    (case updateDriverLocation env userId (latitude (coords l))
                            (longitude (coords l)) w1 of
                       (Inl e, w2) \<Rightarrow> (False, w2)
                     | (Inr u, w2) \<Rightarrow> (True, w2\<lparr>pendingImmediateUpdate := False\<rparr>)))
             else (False, w))
      in if done then (True, w1)
         else (False, w1\<lparr>retryCount := retryCount w1 + 1, pendingImmediateUpdate := False\<rparr>))"

text \<open>
  One invocation, run from its first statement to its return with nothing else running
  while it awaits. Invocations that overlap are runs of the steps of the next section;
  the run of a single invocation there is this function (lemma \<open>uninterrupted_run\<close>).
\<close>

definition requestImmediateUpdate :: "Env \<Rightarrow> string \<Rightarrow> World \<Rightarrow> bool \<times> World" where
  "requestImmediateUpdate env userId w =
     (case requestImmediateUpdate_try env userId (requestImmediateUpdate_entry w) of
        (Inr b, w1) \<Rightarrow> (b, w1)
      | (Inl e, w1) \<Rightarrow> requestImmediateUpdate_catch env userId w1)"

section \<open>requestImmediateUpdate, await by await\<close>

text \<open>
  An asynchronous function runs until its next \<open>await\<close>, issues the awaited call and
  yields; other callbacks, other invocations of the same function among them, may run before
  it is resumed with the call's result. The module variables are shared by all of them.
  A program point names the \<open>await\<close> an invocation is suspended at and holds the result
  it will be resumed with: the position, save and send of the foreground block, the same
  three of the iOS block, the read and send of the stored sample in the outer \<open>try\<close>, and
  the read and send of the guarded branch of the outer \<open>catch\<close>.
\<close>

datatype Pc =
    Start
  | AwaitFgPosition "Exn + LocationObject"
  | AwaitFgSave LocationObject
  | AwaitFgSend "Exn + unit"
  | AwaitIosPosition "Exn + LocationObject"
  | AwaitIosSave LocationObject
  | AwaitIosSend "Exn + unit"
  | AwaitFallbackRead "LocationObject option"
  | AwaitFallbackSend "Exn + unit"
  | AwaitCatchRead "LocationObject option"
  | AwaitCatchSend "Exn + unit"
  | Done bool

text \<open>The end of the outer \<open>catch\<close>: \<open>retryCount++\<close>, the flag cleared, false returned.\<close>

definition exitFalse :: "World \<Rightarrow> Pc \<times> World" where
  "exitFalse w =
     (Done False, w\<lparr>retryCount := retryCount w + 1, pendingImmediateUpdate := False\<rparr>)"

text \<open>
  The outer \<open>catch\<close> is entered: the guard reads \<open>retryCount\<close> as it is at that moment.
\<close>

definition enterCatch :: "Env \<Rightarrow> World \<Rightarrow> Pc \<times> World" where
  "enterCatch env w =
     (if MAX_RETRIES \<le> retryCount w
      then (case getLastKnownLocation env w of (l, w1) \<Rightarrow> (AwaitCatchRead l, w1))
      else exitFalse w)"

text \<open>The timer is replaced and true returned.\<close>

definition armDeadline :: "World \<Rightarrow> Pc \<times> World" where
  "armDeadline w =
     (let w4 = (case locationUpdateTimeout w of
                  None \<Rightarrow> w
                | Some h \<Rightarrow> clearTimeout h w);
          (h', w5) = setTimeout 60000 w4
      in (Done True, w5\<lparr>locationUpdateTimeout := Some h'\<rparr>))"

text \<open>The flag is set again and the read of the stored sample issued.\<close>

definition startDefer :: "Env \<Rightarrow> World \<Rightarrow> Pc \<times> World" where
  "startDefer env w =
     (case getLastKnownLocation env (w\<lparr>pendingImmediateUpdate := True\<rparr>) of
        (l, w1) \<Rightarrow> (AwaitFallbackRead l, w1))"

text \<open>After the foreground block: the iOS block, or straight to the flag.\<close>

definition afterForeground :: "Env \<Rightarrow> World \<Rightarrow> Pc \<times> World" where
  "afterForeground env w =
     (if platformOS env = ''ios''
      then (case getCurrentPositionAsync env HIGH_ACCURACY w of
              (r, w1) \<Rightarrow> (AwaitIosPosition r, w1))
      else startDefer env w)"

text \<open>
  One resumption: from the result of the awaited call to the next \<open>await\<close> or the
  return. The first equation is the call itself, up to its first \<open>await\<close>.
\<close>

fun step :: "Env \<Rightarrow> string \<Rightarrow> Pc \<Rightarrow> World \<Rightarrow> Pc \<times> World" where
  "step env userId Start w =
     (let w0 = requestImmediateUpdate_entry w
      in if appState w0 = ''active''
         then (case getCurrentPositionAsync env HIGH_ACCURACY w0 of
                 (r, w1) \<Rightarrow> (AwaitFgPosition r, w1))
         else afterForeground env w0)"
| "step env userId (AwaitFgPosition (Inl e)) w = afterForeground env w"
| "step env userId (AwaitFgPosition (Inr location)) w =
     (AwaitFgSave location, saveLastKnownLocation env location w)"
| "step env userId (AwaitFgSave location) w =
     (case updateDriverLocation env userId (latitude (coords location))
             (longitude (coords location)) w of
        (r, w1) \<Rightarrow> (AwaitFgSend r, w1))"
| "step env userId (AwaitFgSend (Inl e)) w = afterForeground env w"
| "step env userId (AwaitFgSend (Inr u)) w =
     (Done True, w\<lparr>lastUpdateTime := now w, pendingImmediateUpdate := False\<rparr>)"
| "step env userId (AwaitIosPosition (Inl e)) w = startDefer env w"
| "step env userId (AwaitIosPosition (Inr location)) w =
     (AwaitIosSave location, saveLastKnownLocation env location w)"
| "step env userId (AwaitIosSave location) w =
     (if userId = [] then startDefer env w
      else (case updateDriverLocation env userId (latitude (coords location))
                   (longitude (coords location)) w of
              (r, w1) \<Rightarrow> (AwaitIosSend r, w1)))"
| "step env userId (AwaitIosSend (Inl e)) w = startDefer env w"
| "step env userId (AwaitIosSend (Inr u)) w = (Done True, w\<lparr>pendingImmediateUpdate := False\<rparr>)"
| "step env userId (AwaitFallbackRead None) w = armDeadline w"
| "step env userId (AwaitFallbackRead (Some l)) w =
     (case updateDriverLocation env userId (latitude (coords l)) (longitude (coords l)) w of
        (r, w1) \<Rightarrow> (AwaitFallbackSend r, w1))"
| "step env userId (AwaitFallbackSend (Inl e)) w = enterCatch env w"
| "step env userId (AwaitFallbackSend (Inr u)) w = armDeadline w"
| "step env userId (AwaitCatchRead None) w = exitFalse w"
| "step env userId (AwaitCatchRead (Some l)) w =
     (case updateDriverLocation env userId (latitude (coords l)) (longitude (coords l)) w of
        (r, w1) \<Rightarrow> (AwaitCatchSend r, w1))"
| "step env userId (AwaitCatchSend (Inl e)) w = exitFalse w"
| "step env userId (AwaitCatchSend (Inr u)) w = (Done True, w\<lparr>pendingImmediateUpdate := False\<rparr>)"
| "step env userId (Done b) w = (Done b, w)"

fun isDone :: "Pc \<Rightarrow> bool" where
  "isDone (Done b) = True"
| "isDone pc = False"

fun idle :: "Pc \<Rightarrow> bool" where
  "idle Start = True"
| "idle (Done b) = True"
| "idle pc = False"

text \<open>The program points inside the branch guarded by \<open>retryCount >= MAX_RETRIES\<close>.\<close>

fun inGuardedBranch :: "Pc \<Rightarrow> bool" where
  "inGuardedBranch (AwaitCatchRead l) = True"
| "inGuardedBranch (AwaitCatchSend r) = True"
| "inGuardedBranch pc = False"

text \<open>
  Invocations run in slots. \<open>Call i\<close> starts an invocation in slot \<open>i\<close> if the slot is
  free; \<open>Resume i\<close> resumes the invocation suspended in slot \<open>i\<close>. Between their
  steps time may pass (\<open>Tick\<close>, firing the timers that are due), the foreground watch
  may deliver a sample (\<open>Watch\<close>) and \<open>stopTracking\<close> may run (\<open>Stop\<close>); these two are
  taken whole here. A list of actions is one interleaving; the number of slots bounds how
  many invocations are in flight at once.
\<close>

datatype Action = Call nat | Resume nat | Tick int | Watch LocationObject | Stop

fun act :: "Env \<Rightarrow> string \<Rightarrow> Action \<Rightarrow> Pc list \<times> World \<Rightarrow> Pc list \<times> World" where
  "act env userId (Call i) (pcs, w) =
     (if i < length pcs \<and> idle (pcs ! i)
      then (case step env userId Start w of (pc', w') \<Rightarrow> (pcs[i := pc'], w'))
      else (pcs, w))"
| "act env userId (Resume i) (pcs, w) =
     (if i < length pcs \<and> \<not> idle (pcs ! i)
      then (case step env userId (pcs ! i) w of (pc', w') \<Rightarrow> (pcs[i := pc'], w'))
      else (pcs, w))"
| "act env userId (Tick ms) (pcs, w) = (pcs, advanceTime ms w)"
| "act env userId (Watch location) (pcs, w) = (pcs, watchCallback env userId location w)"
| "act env userId Stop (pcs, w) = (pcs, stopTracking env w)"

fun run :: "Env \<Rightarrow> string \<Rightarrow> Action list \<Rightarrow> Pc list \<times> World \<Rightarrow> Pc list \<times> World" where
  "run env userId [] st = st"
| "run env userId (a # as) st = run env userId as (act env userId a st)"

definition doneCount :: "Pc list \<Rightarrow> nat" where
  "doneCount pcs = length (filter isDone pcs)"

text \<open>
  What holds of every state reached with at most \<open>MAX_RETRIES\<close> slots: no invocation is
  inside the guarded branch, and once a call has been made the counter is at most the
  number of finished invocations.
\<close>

definition fewInFlight :: "Pc list \<times> World \<Rightarrow> bool" where
  "fewInFlight st =
     (int (length (fst st)) \<le> MAX_RETRIES
      \<and> list_all (\<lambda>pc. \<not> inGuardedBranch pc) (fst st)
      \<and> (list_all (\<lambda>pc. pc = Start) (fst st) \<or> retryCount (snd st) \<le> int (doneCount (fst st))))"

text \<open>The outer \<open>try\<close> from the deferral on, and from the iOS block on, with the handler.\<close>

definition afterDefer :: "Env \<Rightarrow> string \<Rightarrow> World \<Rightarrow> bool \<times> World" where
  "afterDefer env userId w =
     (case deferToFlag env userId w of
        (Inr b, w1) \<Rightarrow> (b, w1)
      | (Inl e, w1) \<Rightarrow> requestImmediateUpdate_catch env userId w1)"

definition afterManual :: "Env \<Rightarrow> string \<Rightarrow> World \<Rightarrow> bool \<times> World" where
  "afterManual env userId w =
     (case manualAttempt env userId w of
        (done2, w2) \<Rightarrow> if done2 then (True, w2) else afterDefer env userId w2)"



section \<open>getLocationWithFallback\<close>

text \<open>
  The body of each of the three nested \<open>try\<close> blocks: a position at the given accuracy,
  saved, then sent. Whatever rejects inside it reaches the block's \<open>catch\<close>.
\<close>

definition acquireAndSend :: "Env \<Rightarrow> string \<Rightarrow> Accuracy \<Rightarrow> World \<Rightarrow> (Exn + unit) \<times> World" where
  "acquireAndSend env userId acc w =
     (case getCurrentPositionAsync env acc w of
        (Inl e, w1) \<Rightarrow> (Inl e, w1)
      | (Inr location, w1) \<Rightarrow>
          updateDriverLocation env userId (latitude (coords location))
            (longitude (coords location)) (saveLastKnownLocation env location w1))"

text \<open>
  \<open>Inr b\<close>: the promise resolves to \<open>b\<close>; \<open>Inl e\<close>: it rejects. The innermost \<open>catch\<close>
  sends the stored sample outside any \<open>try\<close>.
\<close>

definition getLocationWithFallback :: "Env \<Rightarrow> string \<Rightarrow> World \<Rightarrow> (Exn + bool) \<times> World" where
  "getLocationWithFallback env userId w =
     (case acquireAndSend env userId HIGH_ACCURACY w of
        (Inr u, w1) \<Rightarrow> (Inr True, w1)
      | (Inl highAccError, w1) \<Rightarrow>
          (case acquireAndSend env userId NORMAL_ACCURACY w1 of
             (Inr u, w2) \<Rightarrow> (Inr True, w2)
           | (Inl balancedError, w2) \<Rightarrow>
               (case acquireAndSend env userId LOW_ACCURACY w2 of
                  (Inr u, w3) \<Rightarrow> (Inr True, w3)
                | (Inl lowAccError, w3) \<Rightarrow>
                    (case getLastKnownLocation env w3 of
                       (None, w4) \<Rightarrow> (Inr False, w4)
                     | (Some lastLocation, w4) \<Rightarrow>
                         (case updateDriverLocation env userId
                                 (latitude (coords lastLocation))
                                 (longitude (coords lastLocation)) w4 of
                            (Inl e, w5) \<Rightarrow> (Inl e, w5)
                          | (Inr u, w5) \<Rightarrow> (Inr True, w5))))))"

section \<open>getCurrentPositionWithErrorHandling (LocationErrorHandling.ts)\<close>

record LocationErrorHandlingOptions =
  showAlerts :: bool
  attemptRecovery :: bool
  maxRetries :: "int option"

definition DEFAULT_OPTIONS :: LocationErrorHandlingOptions where
  "DEFAULT_OPTIONS = \<lparr>showAlerts = True, attemptRecovery = True, maxRetries = Some 3\<rparr>"

text \<open>\<open>a || b\<close> on an optional number: \<open>undefined\<close> and \<open>0\<close> are falsy.\<close>

definition orElse :: "int option \<Rightarrow> int \<Rightarrow> int" where
  "orElse a b = (case a of None \<Rightarrow> b | Some n \<Rightarrow> if n = 0 then b else n)"

definition effectiveMaxRetries :: "LocationErrorHandlingOptions \<Rightarrow> int" where
  "effectiveMaxRetries options =
     orElse (maxRetries options) (orElse (maxRetries DEFAULT_OPTIONS) 3)"

text \<open>The awaited \<open>setTimeout\<close> promise of the backoff: time passes.\<close>

definition delay :: "int \<Rightarrow> World \<Rightarrow> World" where
  "delay ms w = (advanceTime ms w)\<lparr>trace := trace w @ [Delay ms]\<rparr>"

definition handleLocationError :: "World \<Rightarrow> World" where
  "handleLocationError w = w\<lparr>trace := trace w @ [HandleLocationError]\<rparr>"

definition showLocationErrorAlert :: "World \<Rightarrow> World" where
  "showLocationErrorAlert w = w\<lparr>trace := trace w @ [ShowLocationErrorAlert]\<rparr>"

text \<open>
  The two assignments to \<open>locationOptions.accuracy\<close> after the backoff, with \<open>retries\<close>
  already incremented.
\<close>

definition lowerAccuracy :: "int \<Rightarrow> int \<Rightarrow> Accuracy \<Rightarrow> Accuracy" where
  "lowerAccuracy maxR retries acc =
     (let acc1 = (if 1 < retries \<and> acc = High then Balanced else acc)
      in if retries = maxR \<and> acc1 = Balanced then Low else acc1)"

text \<open>
  The \<open>while (retries <= maxRetries)\<close> loop; \<open>retries\<close> and the accuracy of
  \<open>locationOptions\<close> are its variables.
\<close>

function retryLoop ::
  "Env \<Rightarrow> LocationErrorHandlingOptions \<Rightarrow> int \<Rightarrow> int \<Rightarrow> Accuracy \<Rightarrow> World
     \<Rightarrow> LocationObject option \<times> World" where
  "retryLoop env options maxR retries acc w =
     (if retries \<le> maxR then
        (case getCurrentPositionAsync env acc w of
           (Inr location, w1) \<Rightarrow> (Some location, w1)
         | (Inl error, w1) \<Rightarrow>
             (if maxR < retries + 1 then
                (None, if showAlerts options then handleLocationError w1 else w1)
              else if attemptRecovery options then
                retryLoop env options maxR (retries + 1)
                  (lowerAccuracy maxR (retries + 1) acc)
                  (delay (1000 * min 3 (retries + 1)) w1)
              else (None, w1)))
      else (None, w))"
  by pat_completeness auto
termination
  by (relation "measure (\<lambda>(env, options, maxR, retries, acc, w). nat (maxR + 1 - retries))")
     auto

declare retryLoop.simps [simp del]

text \<open>
  \<open>hasPermission\<close> is what \<open>requestLocationPermissionsWithErrorHandling\<close> resolved to
  (it catches its own errors).
\<close>

definition getCurrentPositionWithErrorHandling ::
  "Env \<Rightarrow> bool \<Rightarrow> LocationErrorHandlingOptions \<Rightarrow> Accuracy \<Rightarrow> World
     \<Rightarrow> LocationObject option \<times> World" where
  "getCurrentPositionWithErrorHandling env hasPermission options acc w =
     (if hasPermission
      then retryLoop env options (effectiveMaxRetries options) 0 acc w
      else (None, if showAlerts options then showLocationErrorAlert w else w))"

section \<open>Reading a run\<close>

text \<open>The accuracies of the position requests of a trace, and its backoff delays, in order.\<close>

fun attempts :: "Event list \<Rightarrow> Accuracy list" where
  "attempts [] = []"
| "attempts (GetPosition acc ok # evs) = acc # attempts evs"
| "attempts (e # evs) = attempts evs"

fun delays :: "Event list \<Rightarrow> int list" where
  "delays [] = []"
| "delays (Delay ms # evs) = ms # delays evs"
| "delays (e # evs) = delays evs"

text \<open>The data sent to the server by the successful transmissions of a trace.\<close>

fun delivered :: "Event list \<Rightarrow> (string \<times> real \<times> real) list" where
  "delivered [] = []"
| "delivered (UpdateDriverLocation d lat lng True # evs) = (d, lat, lng) # delivered evs"
| "delivered (e # evs) = delivered evs"

text \<open>What a run from \<open>w\<close> to \<open>w'\<close> added to the trace.\<close>

definition newEvents :: "World \<Rightarrow> World \<Rightarrow> Event list" where
  "newEvents w w' = drop (length (trace w)) (trace w')"

text \<open>
  At most one timer is armed, and \<open>locationUpdateTimeout\<close> holds its handle.
\<close>

definition oneDeadline :: "World \<Rightarrow> bool" where
  "oneDeadline w =
     (case locationUpdateTimeout w of
        None \<Rightarrow> timers w = []
      | Some h \<Rightarrow> length (timers w) \<le> 1 \<and> list_all (\<lambda>(i, due). i = h) (timers w))"

section \<open>Scenarios\<close>

text \<open>A sample captured at time \<open>t\<close>, and an environment given by its position source and network.\<close>

definition sampleAt :: "int \<Rightarrow> LocationObject" where
  "sampleAt t = \<lparr>coords = \<lparr>latitude = 9, longitude = 7\<rparr>, timestamp = t\<rparr>"

definition scriptedEnv ::
  "(nat \<Rightarrow> Accuracy \<Rightarrow> LocationObject option) \<Rightarrow> (nat \<Rightarrow> bool) \<Rightarrow> string \<Rightarrow> Env" where
  "scriptedEnv g n os =
     \<lparr>gps = g, net = n, setItemOk = (\<lambda>k. True), getItemOk = (\<lambda>k. True),
      removeOk = (\<lambda>k. True), hasStarted = (\<lambda>k. Some False), stopUpdatesOk = (\<lambda>k. True),
      storedUser = (\<lambda>k. Some \<lparr>uid = ''driver-1'', role = ''driver''\<rparr>), platformOS = os\<rparr>"



text \<open>The position source is down on an Android device; the network works.\<close>

definition gpsDown :: Env where
  "gpsDown = scriptedEnv (\<lambda>n a. None) (\<lambda>n. True) ''android''"

text \<open>The world after an immediate request that found no position and nothing stored.\<close>

definition pendingWorld :: World where
  "pendingWorld = snd (requestImmediateUpdate gpsDown ''driver-1'' (initialWorld None 0))"


text \<open>Neither the position source nor the network works.\<close>

definition allDown :: Env where
  "allDown = scriptedEnv (\<lambda>n a. None) (\<lambda>n. False) ''android''"

text \<open>
  Every position request succeeds; a send is rejected when it is among the first three
  external calls of the run.
\<close>

definition earlySendsFail :: Env where
  "earlySendsFail = scriptedEnv (\<lambda>n a. Some (sampleAt 20)) (\<lambda>n. 2 < n) ''android''"

text \<open>
  The position source is down and a sample is stored; the sends among the first thirteen
  external calls are rejected, later ones succeed.
\<close>

definition overlapEnv :: Env where
  "overlapEnv = scriptedEnv (\<lambda>n a. None) (\<lambda>n. 12 < n) ''android''"

text \<open>
  Four invocations in flight together: all four are called, all four fail their foreground
  request, read the stored sample and have its send rejected; the handlers of the first
  three run; then the fourth is resumed to its end.
\<close>

definition overlapSchedule :: "Action list" where
  "overlapSchedule =
     [Call 0, Call 1, Call 2, Call 3,
      Resume 0, Resume 1, Resume 2, Resume 3,
      Resume 0, Resume 1, Resume 2, Resume 3,
      Resume 0, Resume 1, Resume 2,
      Resume 3, Resume 3, Resume 3]"

text \<open>Three invocations in flight together, each resumed to its end.\<close>

definition threeOverlapping :: "Action list" where
  "threeOverlapping =
     [Call 0, Call 1, Call 2,
      Resume 0, Resume 1, Resume 2,
      Resume 0, Resume 1, Resume 2,
      Resume 0, Resume 1, Resume 2]"

text \<open>No user is stored (or the stored user cannot be read).\<close>

definition noUserEnv :: Env where
  "noUserEnv = (scriptedEnv (\<lambda>n a. None) (\<lambda>n. True) ''android'')\<lparr>storedUser := (\<lambda>k. None)\<rparr>"

section \<open>Unfolding the model\<close>

lemmas call_defs = getCurrentPositionAsync_def updateDriverLocation_def
  saveLastKnownLocation_def getLastKnownLocation_def setTimeout_def clearTimeout_def

lemmas scenario_defs = sampleAt_def scriptedEnv_def initialWorld_def

lemmas immediate_defs = requestImmediateUpdate_def requestImmediateUpdate_entry_def
  requestImmediateUpdate_try_def requestImmediateUpdate_catch_def foregroundAttempt_def
  manualAttempt_def deferToFlag_def HIGH_ACCURACY_def MAX_RETRIES_def

lemmas ladder_defs = getLocationWithFallback_def acquireAndSend_def HIGH_ACCURACY_def
  NORMAL_ACCURACY_def LOW_ACCURACY_def

lemma attempts_append: "attempts (xs @ ys) = attempts xs @ attempts ys"
  by (induction xs rule: attempts.induct) simp_all

lemma delays_append: "delays (xs @ ys) = delays xs @ delays ys"
  by (induction xs rule: delays.induct) simp_all

lemma newEvents_append: "trace w' = trace w @ evs \<Longrightarrow> newEvents w w' = evs"
  by (simp add: newEvents_def)

lemma gpsDown_gps: "gps gpsDown n acc = None"
  by (simp add: gpsDown_def scriptedEnv_def)

section \<open>The fallback store is written unconditionally\<close>

text \<open>
  C1, counterexample. The store holds a sample captured at time 10; the foreground watch
  callback is handed a sample captured at time 5. After the callback the store holds the
  sample of time 5: the older sample has replaced the newer one.
\<close>

theorem watch_callback_overwrites_newer_sample:
  "storage (watchCallback (scriptedEnv (\<lambda>n a. None) (\<lambda>n. True) ''android'') ''driver-1''
      (sampleAt 5) (initialWorld (Some (sampleAt 10)) 0)) = Some (sampleAt 5)
   \<and> timestamp (sampleAt 5) < timestamp (sampleAt 10)"
  by (simp add: watchCallback_def call_defs scenario_defs)

text \<open>
  C1, as amended. \<open>saveLastKnownLocation\<close> compares no timestamps: whenever the storage
  write succeeds the stored sample becomes the new sample, and when the write is rejected
  the stored sample stays. The same holds of every path that persists through it: the
  foreground watch callback, the background location task, a step of the fallback ladder
  and the direct immediate update.
\<close>

theorem last_known_location_written_unconditionally:
  "storage (saveLastKnownLocation env location w) =
     (if setItemOk env (length (trace w)) then Some location else storage w)
   \<and> storage (watchCallback env userId location w) =
     (if setItemOk env (length (trace w)) then Some location else storage w)
   \<and> storage (snd (locationTrackingTask env False (Some (location # rest)) w)) =
     (if setItemOk env (length (trace w)) then Some location else storage w)
   \<and> (gps env (length (trace w)) acc = Some location \<longrightarrow>
        storage (snd (acquireAndSend env userId acc w)) =
          (if setItemOk env (Suc (length (trace w))) then Some location else storage w))
   \<and> (gps env (length (trace w)) High = Some location \<longrightarrow>
        storage (snd (foregroundAttempt env userId w)) =
          (if setItemOk env (Suc (length (trace w))) then Some location else storage w))"
  by (simp add: watchCallback_def locationTrackingTask_def acquireAndSend_def
      foregroundAttempt_def HIGH_ACCURACY_def call_defs Let_def
      split: option.splits prod.splits sum.splits)

text \<open>
  C1, witness: a ladder step and a direct immediate update that obtain a sample of time 5
  while the store holds one of time 10 leave the sample of time 5 in the store.
\<close>

theorem last_known_location_written_unconditionally_witness:
  "storage (snd (acquireAndSend (scriptedEnv (\<lambda>n a. Some (sampleAt 5)) (\<lambda>n. True) ''android'')
      ''driver-1'' Balanced (initialWorld (Some (sampleAt 10)) 0))) = Some (sampleAt 5)
   \<and> storage (snd (foregroundAttempt (scriptedEnv (\<lambda>n a. Some (sampleAt 5)) (\<lambda>n. True) ''android'')
      ''driver-1'' (initialWorld (Some (sampleAt 10)) 0))) = Some (sampleAt 5)"
  using last_known_location_written_unconditionally
    [where env = "scriptedEnv (\<lambda>n a. Some (sampleAt 5)) (\<lambda>n. True) ''android''"
       and location = "sampleAt 5" and w = "initialWorld (Some (sampleAt 10)) 0"
       and userId = "''driver-1''" and acc = Balanced]
  by (simp add: scenario_defs)

section \<open>Immediate requests and the pending flag\<close>











lemma filter_other_handle:
  "length ts \<le> 1 \<Longrightarrow> list_all (\<lambda>(i, due). i = h) ts \<Longrightarrow> filter (\<lambda>(i, due). i \<noteq> h) ts = []"
  by (cases ts) auto




lemma stopTracking_oneDeadline:
  "oneDeadline w \<Longrightarrow> oneDeadline (stopTracking env w)"
  by (auto simp add: oneDeadline_def stopTracking_def clearTimeout_def Let_def filter_other_handle
      split: option.splits)

lemma advanceTime_oneDeadline:
  "oneDeadline w \<Longrightarrow> oneDeadline (advanceTime ms w)"
  by (cases "timers w") (auto simp add: oneDeadline_def advanceTime_def Let_def split: option.splits)


lemma requestImmediateUpdate_afterManual:
  "requestImmediateUpdate env userId w =
     (let w0 = requestImmediateUpdate_entry w;
          (done1, w1) = (if appState w0 = ''active'' then foregroundAttempt env userId w0
                         else (False, w0))
      in if done1 then (True, w1) else afterManual env userId w1)"
  by (auto simp add: requestImmediateUpdate_def requestImmediateUpdate_try_def afterManual_def
      afterDefer_def Let_def split: prod.splits sum.splits)





lemma pendingWorld_eq:
  "pendingWorld = (initialWorld None 0)\<lparr>pendingImmediateUpdate := True,
     locationUpdateTimeout := Some 0, timers := [(0, 60000)], nextTimerId := 1,
     trace := [GetPosition High False, GetItem True]\<rparr>"
  by (simp add: pendingWorld_def gpsDown_def immediate_defs call_defs scenario_defs)

lemma stopped_eq:
  "stopTracking gpsDown pendingWorld = (initialWorld None 0)\<lparr>pendingImmediateUpdate := True,
     locationUpdateTimeout := None, timers := [], nextTimerId := 1,
     trace := [GetPosition High False, GetItem True, HasStartedLocationUpdates (Some False)]\<rparr>"
  by (simp add: pendingWorld_eq stopTracking_def gpsDown_def call_defs scenario_defs)

text \<open>
  C3, the run that breaks it. An immediate request that finds no position sets the flag and
  arms the 60 second timer; left alone, the timer clears the flag when it fires. If
  \<open>stopTracking\<close> runs before that, it clears the timer and leaves the flag set: no
  timer is armed any more, and the flag stays set however much time passes.
\<close>

theorem stopTracking_cancels_deadline_and_keeps_flag:
  "pendingImmediateUpdate pendingWorld
   \<and> timers pendingWorld = [(0, 60000)]
   \<and> \<not> pendingImmediateUpdate (advanceTime 60000 pendingWorld)
   \<and> pendingImmediateUpdate (stopTracking gpsDown pendingWorld)
   \<and> timers (stopTracking gpsDown pendingWorld) = []
   \<and> (\<forall>t. pendingImmediateUpdate (advanceTime t (stopTracking gpsDown pendingWorld)))"
proof -
  have armed: "pendingImmediateUpdate pendingWorld \<and> timers pendingWorld = [(0, 60000)]
      \<and> \<not> pendingImmediateUpdate (advanceTime 60000 pendingWorld)"
    by (simp add: pendingWorld_eq advanceTime_def initialWorld_def)
  have stuck: "pendingImmediateUpdate (stopTracking gpsDown pendingWorld)
      \<and> timers (stopTracking gpsDown pendingWorld) = []
      \<and> (\<forall>t. pendingImmediateUpdate (advanceTime t (stopTracking gpsDown pendingWorld)))"
    by (simp add: stopped_eq advanceTime_def initialWorld_def)
  from armed stuck show ?thesis by blast
qed

lemma foregroundAttempt_retryCount:
  "retryCount (snd (foregroundAttempt env userId w)) = retryCount w"
  by (simp add: foregroundAttempt_def call_defs Let_def split: option.splits)

lemma manualAttempt_retryCount:
  "retryCount (snd (manualAttempt env userId w)) = retryCount w"
  by (simp add: manualAttempt_def call_defs Let_def split: option.splits)

lemma deferToFlag_retryCount:
  "retryCount (snd (deferToFlag env userId w)) = retryCount w"
  by (simp add: deferToFlag_def call_defs Let_def split: option.splits)

lemma try_retryCount:
  "retryCount (snd (requestImmediateUpdate_try env userId w)) = retryCount w"
proof -
  obtain d1 w1 where fg:
    "(if appState w = ''active'' then foregroundAttempt env userId w else (False, w)) = (d1, w1)"
    by (cases "if appState w = ''active'' then foregroundAttempt env userId w else (False, w)")
  have r1: "retryCount w1 = retryCount w"
    using fg foregroundAttempt_retryCount [of env userId w] by (auto split: if_splits)
  obtain d2 w2 where ma: "manualAttempt env userId w1 = (d2, w2)"
    by (cases "manualAttempt env userId w1")
  have r2: "retryCount w2 = retryCount w1"
    using ma manualAttempt_retryCount [of env userId w1] by simp
  show ?thesis
    using fg ma r1 r2 deferToFlag_retryCount [of env userId w2]
    by (simp add: requestImmediateUpdate_try_def)
qed

text \<open>
  In a run of \<open>requestImmediateUpdate\<close> with nothing interleaved, the counter is 0 when
  the body of the outer \<open>try\<close> ends: the entry resets it and nothing in the body assigns
  it. So the guard is false in the handler, and a run that reaches the handler returns
  false with the counter at 1 and the flag cleared.
\<close>

lemma uninterrupted_guard_false:
  "retryCount (snd (requestImmediateUpdate_try env userId (requestImmediateUpdate_entry w))) = 0
   \<and> \<not> MAX_RETRIES
        \<le> retryCount (snd (requestImmediateUpdate_try env userId (requestImmediateUpdate_entry w)))
   \<and> requestImmediateUpdate env userId w =
       (case requestImmediateUpdate_try env userId (requestImmediateUpdate_entry w) of
          (Inr b, w1) \<Rightarrow> (b, w1)
        | (Inl e, w1) \<Rightarrow> (False, w1\<lparr>retryCount := 1, pendingImmediateUpdate := False\<rparr>))"
proof -
  let ?r = "requestImmediateUpdate_try env userId (requestImmediateUpdate_entry w)"
  have z: "retryCount (snd ?r) = 0"
    by (simp add: try_retryCount requestImmediateUpdate_entry_def)
  have c: "requestImmediateUpdate_catch env userId (snd ?r) =
             (False, (snd ?r)\<lparr>retryCount := 1, pendingImmediateUpdate := False\<rparr>)"
    using z by (simp add: requestImmediateUpdate_catch_def MAX_RETRIES_def)
  show ?thesis
    using z c
    by (cases ?r) (auto simp add: requestImmediateUpdate_def MAX_RETRIES_def split: sum.splits)
qed

section \<open>Overlapping invocations and the retry counter\<close>

lemmas step_defs = exitFalse_def enterCatch_def armDeadline_def startDefer_def
  afterForeground_def requestImmediateUpdate_entry_def HIGH_ACCURACY_def

lemma step_Start:
  "step env userId Start w = (pc', w') \<Longrightarrow>
   \<not> idle pc' \<and> \<not> inGuardedBranch pc' \<and> retryCount w' = 0"
  by (auto simp add: step_defs call_defs Let_def split: if_splits option.splits)

lemma step_resume:
  assumes "\<not> idle pc" and "\<not> inGuardedBranch pc" and "step env userId pc w = (pc', w')"
  shows "(\<not> isDone pc' \<and> \<not> idle pc' \<and> \<not> inGuardedBranch pc' \<and> retryCount w' = retryCount w)
       \<or> (pc' = Done True \<and> retryCount w' = retryCount w)
       \<or> (pc' = Done False \<and> retryCount w' = retryCount w + 1)
       \<or> (inGuardedBranch pc' \<and> MAX_RETRIES \<le> retryCount w)"
proof (cases pc)
  case Start
  then show ?thesis using assms by simp
next
  case (AwaitFgPosition r)
  then show ?thesis using assms
    by (cases r) (auto simp add: step_defs call_defs split: if_splits option.splits)
next
  case (AwaitFgSave l)
  then show ?thesis using assms
    by (auto simp add: step_defs call_defs split: if_splits option.splits)
next
  case (AwaitFgSend r)
  then show ?thesis using assms
    by (cases r) (auto simp add: step_defs call_defs split: if_splits option.splits)
next
  case (AwaitIosPosition r)
  then show ?thesis using assms
    by (cases r) (auto simp add: step_defs call_defs split: if_splits option.splits)
next
  case (AwaitIosSave l)
  then show ?thesis using assms
    by (auto simp add: step_defs call_defs split: if_splits option.splits)
next
  case (AwaitIosSend r)
  then show ?thesis using assms
    by (cases r) (auto simp add: step_defs call_defs split: if_splits option.splits)
next
  case (AwaitFallbackRead l)
  then show ?thesis using assms
    by (cases l) (auto simp add: step_defs call_defs Let_def split: if_splits option.splits)
next
  case (AwaitFallbackSend r)
  then show ?thesis using assms
    by (cases r) (auto simp add: step_defs call_defs Let_def split: if_splits option.splits)
next
  case (AwaitCatchRead l)
  then show ?thesis using assms by simp
next
  case (AwaitCatchSend r)
  then show ?thesis using assms by simp
next
  case (Done b)
  then show ?thesis using assms by simp
qed

lemma doneCount_update:
  "i < length pcs \<Longrightarrow> \<not> isDone (pcs ! i) \<Longrightarrow>
   doneCount (pcs[i := pc]) = doneCount pcs + (if isDone pc then 1 else 0)"
proof (induction pcs arbitrary: i)
  case Nil
  then show ?case by simp
next
  case (Cons p ps)
  then show ?case by (cases i) (auto simp add: doneCount_def)
qed

lemma doneCount_less:
  "i < length pcs \<Longrightarrow> \<not> isDone (pcs ! i) \<Longrightarrow> doneCount pcs < length pcs"
proof (induction pcs arbitrary: i)
  case Nil
  then show ?case by simp
next
  case (Cons p ps)
  have le: "length (filter isDone ps) \<le> length ps" by simp
  show ?case
  proof (cases i)
    case 0
    then show ?thesis using Cons.prems le by (simp add: doneCount_def less_Suc_eq_le)
  next
    case (Suc j)
    then have "doneCount ps < length ps" using Cons.IH [of j] Cons.prems by simp
    then show ?thesis by (simp add: doneCount_def)
  qed
qed

lemma list_all_update:
  "list_all P xs \<Longrightarrow> P y \<Longrightarrow> list_all P (xs[i := y])"
  by (induction xs arbitrary: i) (auto split: nat.splits)

lemma isDone_idle: "isDone pc \<Longrightarrow> idle pc"
  by (cases pc) simp_all

lemma others_keep_retryCount:
  "retryCount (advanceTime ms w) = retryCount w
   \<and> retryCount (watchCallback env userId location w) = retryCount w
   \<and> retryCount (stopTracking env w) = retryCount w"
  by (simp add: advanceTime_def watchCallback_def stopTracking_def call_defs Let_def
      split: option.splits)

lemma fewInFlight_act:
  assumes "fewInFlight st"
  shows "fewInFlight (act env userId a st)"
proof -
  obtain pcs w where st: "st = (pcs, w)" by (cases st)
  have len: "int (length pcs) \<le> MAX_RETRIES"
    and ng: "list_all (\<lambda>pc. \<not> inGuardedBranch pc) pcs"
    and rc: "list_all (\<lambda>pc. pc = Start) pcs \<or> retryCount w \<le> int (doneCount pcs)"
    using assms st by (simp_all add: fewInFlight_def)
  show ?thesis
  proof (cases a)
    case (Call i)
    show ?thesis
    proof (cases "i < length pcs \<and> idle (pcs ! i)")
      case False
      then show ?thesis using assms st Call by auto
    next
      case True
      obtain pc' w' where s: "step env userId Start w = (pc', w')"
        by (cases "step env userId Start w")
      have p: "\<not> idle pc'" "\<not> inGuardedBranch pc'" "retryCount w' = 0"
        using step_Start [OF s] by simp_all
      have "list_all (\<lambda>pc. \<not> inGuardedBranch pc) (pcs[i := pc'])"
        using ng p(2) by (rule list_all_update)
      then show ?thesis
        using True s st Call len p(3) by (simp add: fewInFlight_def)
    qed
  next
    case (Resume i)
    show ?thesis
    proof (cases "i < length pcs \<and> \<not> idle (pcs ! i)")
      case False
      then show ?thesis using assms st Resume by auto
    next
      case True
      then have i: "i < length pcs" and ni: "\<not> idle (pcs ! i)" by simp_all
      have nd: "\<not> isDone (pcs ! i)" using ni isDone_idle by blast
      have ngi: "\<not> inGuardedBranch (pcs ! i)"
        using ng i by (simp add: list_all_length)
      have "\<not> list_all (\<lambda>pc. pc = Start) pcs"
        using i ni by (auto simp add: list_all_length)
      then have rcw: "retryCount w \<le> int (doneCount pcs)" using rc by simp
      have "doneCount pcs < length pcs" using i nd by (rule doneCount_less)
      then have small: "retryCount w < MAX_RETRIES" using rcw len by simp
      obtain pc' w' where s: "step env userId (pcs ! i) w = (pc', w')"
        by (cases "step env userId (pcs ! i) w")
      have cases3:
        "(\<not> isDone pc' \<and> \<not> inGuardedBranch pc' \<and> retryCount w' = retryCount w)
         \<or> (pc' = Done True \<and> retryCount w' = retryCount w)
         \<or> (pc' = Done False \<and> retryCount w' = retryCount w + 1)"
        using step_resume [OF ni ngi s] small by auto
      then have ng': "\<not> inGuardedBranch pc'" by auto
      have a1: "list_all (\<lambda>pc. \<not> inGuardedBranch pc) (pcs[i := pc'])"
        using ng ng' by (rule list_all_update)
      have a2: "retryCount w' \<le> int (doneCount (pcs[i := pc']))"
        using cases3 rcw doneCount_update [OF i nd, of pc'] by auto
      show ?thesis
        using True s st Resume len a1 a2 by (simp add: fewInFlight_def)
    qed
  next
    case (Tick ms)
    then show ?thesis
      using len ng rc st others_keep_retryCount [of ms w] by (simp add: fewInFlight_def)
  next
    case (Watch location)
    then show ?thesis
      using len ng rc st others_keep_retryCount [of _ w env userId location]
      by (simp add: fewInFlight_def)
  next
    case Stop
    then show ?thesis
      using len ng rc st others_keep_retryCount [of _ w env] by (simp add: fewInFlight_def)
  qed
qed

lemma fewInFlight_run:
  "fewInFlight st \<Longrightarrow> fewInFlight (run env userId acts st)"
  by (induction acts arbitrary: st) (simp_all add: fewInFlight_act)

lemma resumes_done:
  "run env userId (replicate k (Resume 0)) ([Done b], w) = ([Done b], w)"
  by (induction k) simp_all

lemma armDeadline_Done: "armDeadline w = (pc, w1) \<Longrightarrow> pc = Done True"
  by (auto simp add: armDeadline_def Let_def split: prod.splits)

lemma run_enterCatch:
  assumes "enterCatch env w = (pc, w1)"
  shows "run env userId (replicate (Suc (Suc k)) (Resume 0)) ([pc], w1) =
     ([Done (fst (requestImmediateUpdate_catch env userId w))],
      snd (requestImmediateUpdate_catch env userId w))"
  using assms
  by (auto simp add: enterCatch_def exitFalse_def requestImmediateUpdate_catch_def call_defs
      resumes_done Let_def split: if_splits option.splits)

lemma deferToFlag_armDeadline:
  "deferToFlag env userId w =
     (case getLastKnownLocation env (w\<lparr>pendingImmediateUpdate := True\<rparr>) of
        (l, w2) \<Rightarrow>
          (case (case l of
                   None \<Rightarrow> (Inr (), w2)
                 | Some loc \<Rightarrow>
                     updateDriverLocation env userId (latitude (coords loc))
                       (longitude (coords loc)) w2) of
             (Inl e, w3) \<Rightarrow> (Inl e, w3)
           | (Inr u, w3) \<Rightarrow> (Inr True, snd (armDeadline w3))))"
  by (simp add: deferToFlag_def armDeadline_def Let_def split: prod.splits sum.splits)

lemma run_startDefer:
  assumes "startDefer env w = (pc, w1)"
  shows "run env userId (replicate (Suc (Suc (Suc (Suc k)))) (Resume 0)) ([pc], w1) =
     ([Done (fst (afterDefer env userId w))], snd (afterDefer env userId w))"
proof -
  let ?w0 = "w\<lparr>pendingImmediateUpdate := True\<rparr>"
  obtain l where gl: "getLastKnownLocation env ?w0 = (l, w1)" and pc: "pc = AwaitFallbackRead l"
    using assms by (auto simp add: startDefer_def split: prod.splits)
  show ?thesis
  proof (cases l)
    case None
    obtain pa wa where a: "armDeadline w1 = (pa, wa)" by (cases "armDeadline w1")
    have d: "deferToFlag env userId w = (Inr True, wa)"
      using None a gl by (simp add: deferToFlag_armDeadline)
    show ?thesis
      using None pc a armDeadline_Done [OF a] d
      by (simp add: afterDefer_def resumes_done)
  next
    case (Some loc)
    obtain r w2 where s: "updateDriverLocation env userId (latitude (coords loc))
        (longitude (coords loc)) w1 = (r, w2)"
      by (cases "updateDriverLocation env userId (latitude (coords loc))
        (longitude (coords loc)) w1")
    show ?thesis
    proof (cases r)
      case (Inl e)
      obtain pb wb where c: "enterCatch env w2 = (pb, wb)" by (cases "enterCatch env w2")
      have d: "deferToFlag env userId w = (Inl e, w2)"
        using Some s Inl gl by (simp add: deferToFlag_armDeadline)
      show ?thesis
        using Some pc s Inl c run_enterCatch [OF c, of userId k] d
        by (simp add: afterDefer_def)
    next
      case (Inr u)
      obtain pa wa where a: "armDeadline w2 = (pa, wa)" by (cases "armDeadline w2")
      have d: "deferToFlag env userId w = (Inr True, wa)"
        using Some s Inr a gl by (simp add: deferToFlag_armDeadline)
      show ?thesis
        using Some pc s Inr a armDeadline_Done [OF a] d
        by (simp add: afterDefer_def resumes_done)
    qed
  qed
qed

lemma run_afterForeground:
  assumes "afterForeground env w = (pc, w1)"
  shows "run env userId (replicate (Suc (Suc (Suc (Suc (Suc (Suc (Suc k))))))) (Resume 0))
           ([pc], w1) =
     ([Done (fst (afterManual env userId w))], snd (afterManual env userId w))"
proof (cases "platformOS env = ''ios''")
  case False
  then have sd: "startDefer env w = (pc, w1)"
    using assms by (simp add: afterForeground_def)
  show ?thesis
    using False run_startDefer [OF sd, of userId "Suc (Suc (Suc k))"]
    by (simp add: afterManual_def manualAttempt_def)
next
  case True
  obtain r wg where g: "getCurrentPositionAsync env HIGH_ACCURACY w = (r, wg)"
    by (cases "getCurrentPositionAsync env HIGH_ACCURACY w")
  have pc: "pc = AwaitIosPosition r" and w1: "w1 = wg"
    using assms True g by (simp_all add: afterForeground_def)
  show ?thesis
  proof (cases r)
    case (Inl e)
    obtain pd wd where sd: "startDefer env wg = (pd, wd)" by (cases "startDefer env wg")
    show ?thesis
      using True g Inl pc w1 sd run_startDefer [OF sd, of userId "Suc (Suc k)"]
      by (simp add: afterManual_def manualAttempt_def)
  next
    case (Inr location)
    let ?ws = "saveLastKnownLocation env location wg"
    show ?thesis
    proof (cases "userId = []")
      case empty: True
      obtain pd wd where sd: "startDefer env ?ws = (pd, wd)" by (cases "startDefer env ?ws")
      show ?thesis
        using True g Inr pc w1 empty sd run_startDefer [OF sd, of userId "Suc k"]
        by (simp add: afterManual_def manualAttempt_def Let_def)
    next
      case nonempty: False
      obtain r2 w2 where s: "updateDriverLocation env userId (latitude (coords location))
          (longitude (coords location)) ?ws = (r2, w2)"
        by (cases "updateDriverLocation env userId (latitude (coords location))
          (longitude (coords location)) ?ws")
      show ?thesis
      proof (cases r2)
        case (Inl e)
        obtain pd wd where sd: "startDefer env w2 = (pd, wd)" by (cases "startDefer env w2")
        show ?thesis
          using True g Inr pc w1 nonempty s Inl sd run_startDefer [OF sd, of userId k]
          by (simp add: afterManual_def manualAttempt_def Let_def)
      next
        case (Inr u)
        show ?thesis
          using True g \<open>r = Inr location\<close> pc w1 nonempty s Inr
          by (simp add: afterManual_def manualAttempt_def Let_def resumes_done)
      qed
    qed
  qed
qed

text \<open>
  The steps of one invocation, taken with nothing in between, are the function
  \<open>requestImmediateUpdate\<close>: a call and at most ten resumptions end it with the same
  result in the same world.
\<close>

lemma uninterrupted_run:
  "run env userId (Call 0 # replicate 10 (Resume 0)) ([Start], w) =
     ([Done (fst (requestImmediateUpdate env userId w))],
      snd (requestImmediateUpdate env userId w))"
proof -
  let ?w0 = "requestImmediateUpdate_entry w"
  have ten: "(10::nat) = Suc (Suc (Suc (Suc (Suc (Suc (Suc (Suc (Suc (Suc 0)))))))))"
    by simp
  show ?thesis
  proof (cases "appState ?w0 = ''active''")
    case False
    obtain pa wa where af: "afterForeground env ?w0 = (pa, wa)"
      by (cases "afterForeground env ?w0")
    show ?thesis
      using False af run_afterForeground [OF af, of userId "Suc (Suc (Suc 0))"]
      by (simp add: ten requestImmediateUpdate_afterManual Let_def)
  next
    case True
    obtain r wg where g: "getCurrentPositionAsync env HIGH_ACCURACY ?w0 = (r, wg)"
      by (cases "getCurrentPositionAsync env HIGH_ACCURACY ?w0")
    show ?thesis
    proof (cases r)
      case (Inl e)
      obtain pa wa where af: "afterForeground env wg = (pa, wa)"
        by (cases "afterForeground env wg")
      show ?thesis
        using True g Inl af run_afterForeground [OF af, of userId "Suc (Suc 0)"]
        by (simp add: ten requestImmediateUpdate_afterManual foregroundAttempt_def Let_def)
    next
      case (Inr location)
      let ?ws = "saveLastKnownLocation env location wg"
      obtain r2 w2 where s: "updateDriverLocation env userId (latitude (coords location))
          (longitude (coords location)) ?ws = (r2, w2)"
        by (cases "updateDriverLocation env userId (latitude (coords location))
          (longitude (coords location)) ?ws")
      show ?thesis
      proof (cases r2)
        case (Inl e)
        obtain pa wa where af: "afterForeground env w2 = (pa, wa)"
          by (cases "afterForeground env w2")
        show ?thesis
          using True g \<open>r = Inr location\<close> s Inl af run_afterForeground [OF af, of userId 0]
          by (simp add: ten requestImmediateUpdate_afterManual foregroundAttempt_def Let_def)
      next
        case (Inr u)
        show ?thesis
          using True g \<open>r = Inr location\<close> s Inr
          by (simp add: ten requestImmediateUpdate_afterManual foregroundAttempt_def Let_def
              resumes_done)
      qed
    qed
  qed
qed

text \<open>
  C9, counterexample. Four invocations are in flight together; the position source is down,
  a sample is stored and the send of each invocation's outer \<open>try\<close> is rejected. Each
  call resets the counter to 0 and suspends. The handlers of the first three run one after
  the other and count 1, 2, 3. When the fourth invocation's own handler runs, the guard
  \<open>retryCount >= MAX_RETRIES\<close> is true: the invocation enters the guarded branch, reads
  the stored sample, sends it (the network is back) and returns true.
\<close>

theorem fourth_overlapping_call_takes_guarded_branch:
  "fst (run overlapEnv ''driver-1'' (take 16 overlapSchedule)
          (replicate 4 Start, initialWorld (Some (sampleAt 10)) 0)) =
     [Done False, Done False, Done False, AwaitCatchRead (Some (sampleAt 10))]
   \<and> retryCount (snd (run overlapEnv ''driver-1'' (take 15 overlapSchedule)
          (replicate 4 Start, initialWorld (Some (sampleAt 10)) 0))) = 3
   \<and> fst (run overlapEnv ''driver-1'' overlapSchedule
          (replicate 4 Start, initialWorld (Some (sampleAt 10)) 0)) =
     [Done False, Done False, Done False, Done True]"
  by (simp add: overlapSchedule_def overlapEnv_def step_defs call_defs scenario_defs
      MAX_RETRIES_def eval_nat_numeral)

text \<open>
  C9, as amended. The branch guarded by \<open>retryCount >= MAX_RETRIES\<close> is unreachable as
  long as at most \<open>MAX_RETRIES\<close> (three) invocations of \<open>requestImmediateUpdate\<close> are in
  flight at any time, however many are made one after another, however their steps
  interleave and whatever timers, watch callbacks and calls of \<open>stopTracking\<close> run in
  between: no invocation is ever suspended inside the branch. In particular it is
  unreachable in an invocation that no other invocation overlaps.
\<close>

theorem guarded_branch_needs_four_in_flight:
  assumes "int n \<le> MAX_RETRIES"
  shows "list_all (\<lambda>pc. \<not> inGuardedBranch pc) (fst (run env userId acts (replicate n Start, w)))"
proof -
  have "fewInFlight (replicate n Start, w)"
    using assms by (simp add: fewInFlight_def list_all_length)
  then have "fewInFlight (run env userId acts (replicate n Start, w))"
    by (rule fewInFlight_run)
  then show ?thesis by (simp add: fewInFlight_def)
qed

text \<open>
  C9, witness: three invocations in flight together, all three reaching their handlers;
  the counter ends at 3 and none has entered the guarded branch.
\<close>

theorem guarded_branch_needs_four_in_flight_witness:
  "int 3 \<le> MAX_RETRIES
   \<and> list_all (\<lambda>pc. \<not> inGuardedBranch pc)
        (fst (run overlapEnv ''driver-1'' threeOverlapping
               (replicate 3 Start, initialWorld (Some (sampleAt 10)) 0)))
   \<and> fst (run overlapEnv ''driver-1'' threeOverlapping
            (replicate 3 Start, initialWorld (Some (sampleAt 10)) 0)) =
       [Done False, Done False, Done False]
   \<and> retryCount (snd (run overlapEnv ''driver-1'' threeOverlapping
            (replicate 3 Start, initialWorld (Some (sampleAt 10)) 0))) = 3"
proof -
  have h: "int 3 \<le> MAX_RETRIES" by (simp add: MAX_RETRIES_def)
  have e: "run overlapEnv ''driver-1'' threeOverlapping
            (replicate 3 Start, initialWorld (Some (sampleAt 10)) 0) =
      ([Done False, Done False, Done False],
       (initialWorld (Some (sampleAt 10)) 0)\<lparr>retryCount := 3,
          trace := [GetPosition High False, GetPosition High False, GetPosition High False,
                    GetItem True, GetItem True, GetItem True,
                    UpdateDriverLocation ''driver-1'' 9 7 False,
                    UpdateDriverLocation ''driver-1'' 9 7 False,
                    UpdateDriverLocation ''driver-1'' 9 7 False]\<rparr>)"
    by (simp add: threeOverlapping_def overlapEnv_def step_defs call_defs scenario_defs
        MAX_RETRIES_def eval_nat_numeral)
  show ?thesis
    using h guarded_branch_needs_four_in_flight
      [OF h, of overlapEnv "''driver-1''" threeOverlapping "initialWorld (Some (sampleAt 10)) 0"]
    by (simp add: e)
qed

section \<open>The retry loop of getCurrentPositionWithErrorHandling\<close>

lemma lowerAccuracy_rank: "accuracy_rank (lowerAccuracy maxR retries acc) \<le> accuracy_rank acc"
  by (simp add: lowerAccuracy_def Let_def)

lemma trace_delay: "trace (delay ms w) = trace w @ [Delay ms]"
  by (simp add: delay_def)

lemma getCurrentPositionAsync_None:
  "gps env (length (trace w)) acc = None \<Longrightarrow>
   getCurrentPositionAsync env acc w =
     (Inl LocationError, w\<lparr>trace := trace w @ [GetPosition acc False]\<rparr>)"
  by (simp add: getCurrentPositionAsync_def)

lemma getCurrentPositionAsync_Some:
  "gps env (length (trace w)) acc = Some l \<Longrightarrow>
   getCurrentPositionAsync env acc w = (Inr l, w\<lparr>trace := trace w @ [GetPosition acc True]\<rparr>)"
  by (simp add: getCurrentPositionAsync_def)

lemma retryLoop_attempts:
  "\<exists>evs. trace (snd (retryLoop env options maxR retries acc w)) = trace w @ evs
     \<and> int (length (attempts evs)) \<le> max 0 (maxR + 1 - retries)
     \<and> sorted_wrt (\<lambda>a b. accuracy_rank b \<le> accuracy_rank a) (attempts evs)
     \<and> (\<forall>a \<in> set (attempts evs). accuracy_rank a \<le> accuracy_rank acc)"
proof (induction env options maxR retries acc w rule: retryLoop.induct)
  case (1 env options maxR retries acc w)
  show ?case
  proof (cases "retries \<le> maxR")
    case False
    then show ?thesis by (subst retryLoop.simps) simp
  next
    case le: True
    show ?thesis
    proof (cases "gps env (length (trace w)) acc")
      case (Some l)
      then show ?thesis using le
        by (subst retryLoop.simps) (simp add: getCurrentPositionAsync_Some)
    next
      case None
      let ?w1 = "w\<lparr>trace := trace w @ [GetPosition acc False]\<rparr>"
      have g: "getCurrentPositionAsync env acc w = (Inl LocationError, ?w1)"
        using None by (rule getCurrentPositionAsync_None)
      show ?thesis
      proof (cases "maxR < retries + 1")
        case True
        then show ?thesis using le g
          by (subst retryLoop.simps) (simp add: handleLocationError_def)
      next
        case more: False
        show ?thesis
        proof (cases "attemptRecovery options")
          case False
          then show ?thesis using le g more
            by (subst retryLoop.simps) simp
        next
          case True
          let ?acc' = "lowerAccuracy maxR (retries + 1) acc"
          let ?w2 = "delay (1000 * min 3 (retries + 1)) ?w1"
          from "1.IH" [OF le g [symmetric] refl _ True] more
          obtain evs where ih:
            "trace (snd (retryLoop env options maxR (retries + 1) ?acc' ?w2)) = trace ?w2 @ evs"
            "int (length (attempts evs)) \<le> max 0 (maxR + 1 - (retries + 1))"
            "sorted_wrt (\<lambda>a b. accuracy_rank b \<le> accuracy_rank a) (attempts evs)"
            "\<forall>a \<in> set (attempts evs). accuracy_rank a \<le> accuracy_rank ?acc'"
            by auto
          have step: "retryLoop env options maxR retries acc w =
                        retryLoop env options maxR (retries + 1) ?acc' ?w2"
            using le g more True by (subst retryLoop.simps) simp
          have r: "\<forall>a \<in> set (attempts evs). accuracy_rank a \<le> accuracy_rank acc"
            using ih(4) lowerAccuracy_rank [of maxR "retries + 1" acc] by fastforce
          show ?thesis
            apply (rule exI [of _ "GetPosition acc False # Delay (1000 * min 3 (retries + 1)) # evs"])
            using ih r more le by (simp add: step trace_delay)
        qed
      qed
    qed
  qed
qed


lemma retryLoop_Some:
  "retries \<le> maxR \<Longrightarrow> gps env (length (trace w)) acc = Some l \<Longrightarrow>
   retryLoop env options maxR retries acc w =
     (Some l, w\<lparr>trace := trace w @ [GetPosition acc True]\<rparr>)"
  by (subst retryLoop.simps) (simp add: getCurrentPositionAsync_Some)

lemma retryLoop_None_retry:
  "retries < maxR \<Longrightarrow> attemptRecovery options \<Longrightarrow> gps env (length (trace w)) acc = None \<Longrightarrow>
   retryLoop env options maxR retries acc w =
     retryLoop env options maxR (retries + 1) (lowerAccuracy maxR (retries + 1) acc)
       (delay (1000 * min 3 (retries + 1)) (w\<lparr>trace := trace w @ [GetPosition acc False]\<rparr>))"
  by (subst retryLoop.simps) (simp add: getCurrentPositionAsync_None)

lemma retryLoop_None_last:
  "retries = maxR \<Longrightarrow> gps env (length (trace w)) acc = None \<Longrightarrow>
   retryLoop env options maxR retries acc w =
     (None, if showAlerts options
            then handleLocationError (w\<lparr>trace := trace w @ [GetPosition acc False]\<rparr>)
            else w\<lparr>trace := trace w @ [GetPosition acc False]\<rparr>)"
  by (subst retryLoop.simps) (simp add: getCurrentPositionAsync_None)

lemma retryLoop_three:
  assumes "attemptRecovery options"
  shows "\<exists>evs. trace (snd (retryLoop env options 3 0 High w)) = trace w @ evs
    \<and> attempts evs =
        (case gps env (length (trace w)) High of
           Some l \<Rightarrow> [High]
         | None \<Rightarrow>
             (case gps env (length (trace w) + 2) High of
                Some l \<Rightarrow> [High, High]
              | None \<Rightarrow>
                  (case gps env (length (trace w) + 4) Balanced of
                     Some l \<Rightarrow> [High, High, Balanced]
                   | None \<Rightarrow> [High, High, Balanced, Low])))
    \<and> delays evs = take (length (attempts evs) - 1) [1000, 2000, 3000]"
  using assms
  by (cases "gps env (length (trace w)) High";
      cases "gps env (length (trace w) + 2) High";
      cases "gps env (length (trace w) + 4) Balanced";
      cases "gps env (length (trace w) + 6) Low")
     (simp_all add: retryLoop_Some retryLoop_None_retry retryLoop_None_last trace_delay
        lowerAccuracy_def handleLocationError_def eval_nat_numeral)


lemma retry_run_gpsDown:
  "trace (snd (getCurrentPositionWithErrorHandling gpsDown True DEFAULT_OPTIONS High
      (initialWorld None 0))) =
     [GetPosition High False, Delay 1000, GetPosition High False, Delay 2000,
      GetPosition Balanced False, Delay 3000, GetPosition Low False, HandleLocationError]"
  by (simp add: getCurrentPositionWithErrorHandling_def effectiveMaxRetries_def orElse_def
      DEFAULT_OPTIONS_def retryLoop_None_retry retryLoop_None_last gpsDown_gps trace_delay
      lowerAccuracy_def handleLocationError_def initialWorld_def)

section \<open>The fallback ladder\<close>

lemma acquireAndSend_trace:
  "\<exists>ok evs. trace (snd (acquireAndSend env userId acc w)) = trace w @ GetPosition acc ok # evs
      \<and> attempts evs = [] \<and> delays evs = []"
  by (auto simp add: acquireAndSend_def call_defs split: option.splits)

lemma cached_send_trace:
  "\<exists>evs. trace (snd (case getLastKnownLocation env w of
                       (None, w4) \<Rightarrow> (Inr False, w4)
                     | (Some l, w4) \<Rightarrow>
                         (case updateDriverLocation env userId (latitude (coords l))
                                 (longitude (coords l)) w4 of
                            (Inl e, w5) \<Rightarrow> (Inl e, w5)
                          | (Inr u, w5) \<Rightarrow> (Inr True, w5)))) = trace w @ evs
      \<and> attempts evs = [] \<and> delays evs = []"
  by (auto simp add: call_defs split: option.splits)

lemma ladder_attempts:
  "\<exists>evs. trace (snd (getLocationWithFallback env userId w)) = trace w @ evs
     \<and> delays evs = []
     \<and> attempts evs =
         (case acquireAndSend env userId High w of
            (Inr u, w1) \<Rightarrow> [High]
          | (Inl e1, w1) \<Rightarrow>
              (case acquireAndSend env userId Balanced w1 of
                 (Inr u, w2) \<Rightarrow> [High, Balanced]
               | (Inl e2, w2) \<Rightarrow> [High, Balanced, Low]))"
proof -
  obtain r1 w1 where s1: "acquireAndSend env userId High w = (r1, w1)"
    by (cases "acquireAndSend env userId High w")
  obtain ok1 e1 where t1: "trace w1 = trace w @ GetPosition High ok1 # e1"
      "attempts e1 = []" "delays e1 = []"
    using acquireAndSend_trace [of env userId High w] s1 by auto
  obtain r2 w2 where s2: "acquireAndSend env userId Balanced w1 = (r2, w2)"
    by (cases "acquireAndSend env userId Balanced w1")
  obtain ok2 e2 where t2: "trace w2 = trace w1 @ GetPosition Balanced ok2 # e2"
      "attempts e2 = []" "delays e2 = []"
    using acquireAndSend_trace [of env userId Balanced w1] s2 by auto
  obtain r3 w3 where s3: "acquireAndSend env userId Low w2 = (r3, w3)"
    by (cases "acquireAndSend env userId Low w2")
  obtain ok3 e3 where t3: "trace w3 = trace w2 @ GetPosition Low ok3 # e3"
      "attempts e3 = []" "delays e3 = []"
    using acquireAndSend_trace [of env userId Low w2] s3 by auto
  obtain e4 where t4:
    "trace (snd (case getLastKnownLocation env w3 of
                       (None, w4) \<Rightarrow> (Inr False, w4)
                     | (Some l, w4) \<Rightarrow>
                         (case updateDriverLocation env userId (latitude (coords l))
                                 (longitude (coords l)) w4 of
                            (Inl e, w5) \<Rightarrow> (Inl e, w5)
                          | (Inr u, w5) \<Rightarrow> (Inr True, w5)))) = trace w3 @ e4"
    "attempts e4 = []" "delays e4 = []"
    using cached_send_trace [where env = env and w = w3 and userId = userId] by auto
  show ?thesis
    using s1 s2 s3 t1 t2 t3 t4
    by (cases r1; cases r2; cases r3)
       (simp_all add: getLocationWithFallback_def HIGH_ACCURACY_def NORMAL_ACCURACY_def
          LOW_ACCURACY_def attempts_append delays_append)
qed


lemma ladder_attempts_cases:
  "attempts (newEvents w (snd (getLocationWithFallback env userId w))) = [High]
   \<or> attempts (newEvents w (snd (getLocationWithFallback env userId w))) = [High, Balanced]
   \<or> attempts (newEvents w (snd (getLocationWithFallback env userId w))) = [High, Balanced, Low]"
proof -
  obtain evs where l: "trace (snd (getLocationWithFallback env userId w)) = trace w @ evs"
      "attempts evs =
         (case acquireAndSend env userId High w of
            (Inr u, w1) \<Rightarrow> [High]
          | (Inl e1, w1) \<Rightarrow>
              (case acquireAndSend env userId Balanced w1 of
                 (Inr u, w2) \<Rightarrow> [High, Balanced]
               | (Inl e2, w2) \<Rightarrow> [High, Balanced, Low]))"
    using ladder_attempts [of env userId w] by blast
  have n: "newEvents w (snd (getLocationWithFallback env userId w)) = evs"
    using l(1) by (rule newEvents_append)
  show ?thesis
    unfolding n l(2) by (simp split: prod.splits sum.splits)
qed

lemma ladder_after_first_failure:
  assumes "acquireAndSend env userId High w = (Inl e, w1)"
  shows "\<exists>ok evs. trace (snd (getLocationWithFallback env userId w)) =
           trace w1 @ GetPosition Balanced ok # evs"
proof -
  obtain r2 w2 where s2: "acquireAndSend env userId Balanced w1 = (r2, w2)"
    by (cases "acquireAndSend env userId Balanced w1")
  obtain ok2 e2 where t2: "trace w2 = trace w1 @ GetPosition Balanced ok2 # e2"
    using acquireAndSend_trace [of env userId Balanced w1] s2 by auto
  obtain r3 w3 where s3: "acquireAndSend env userId Low w2 = (r3, w3)"
    by (cases "acquireAndSend env userId Low w2")
  obtain ok3 e3 where t3: "trace w3 = trace w2 @ GetPosition Low ok3 # e3"
    using acquireAndSend_trace [of env userId Low w2] s3 by auto
  obtain e4 where t4:
    "trace (snd (case getLastKnownLocation env w3 of
                       (None, w4) \<Rightarrow> (Inr False, w4)
                     | (Some l, w4) \<Rightarrow>
                         (case updateDriverLocation env userId (latitude (coords l))
                                 (longitude (coords l)) w4 of
                            (Inl e, w5) \<Rightarrow> (Inl e, w5)
                          | (Inr u, w5) \<Rightarrow> (Inr True, w5)))) = trace w3 @ e4"
    using cached_send_trace [where env = env and w = w3 and userId = userId] by auto
  show ?thesis
    using assms s2 s3 t2 t3 t4
    by (cases r2; cases r3)
       (simp_all add: getLocationWithFallback_def HIGH_ACCURACY_def NORMAL_ACCURACY_def
          LOW_ACCURACY_def)
qed

lemma ladder_run_gpsDown:
  "trace (snd (getLocationWithFallback gpsDown ''driver-1'' (initialWorld None 0))) =
     [GetPosition High False, GetPosition Balanced False, GetPosition Low False, GetItem True]"
  by (simp add: gpsDown_def ladder_defs call_defs scenario_defs)

text \<open>
  C4, counterexample. The position source is down. With the default options (three
  retries, recovery on) and High accuracy, \<open>getCurrentPositionWithErrorHandling\<close> makes
  its first two attempts at High and its third at Balanced, not at Low; the accuracy is
  not lowered after the first failure. \<open>getLocationWithFallback\<close> does step down once per
  failure (High, Balanced, Low), but waits between no two attempts: its run has no
  backoff.
\<close>

theorem third_attempt_balanced_and_ladder_without_backoff:
  "attempts (trace (snd (getCurrentPositionWithErrorHandling gpsDown True DEFAULT_OPTIONS High
      (initialWorld None 0)))) = [High, High, Balanced, Low]
   \<and> attempts (trace (snd (getLocationWithFallback gpsDown ''driver-1'' (initialWorld None 0)))) =
       [High, Balanced, Low]
   \<and> delays (trace (snd (getLocationWithFallback gpsDown ''driver-1'' (initialWorld None 0)))) = []"
  by (simp add: retry_run_gpsDown ladder_run_gpsDown)

text \<open>
  C4, as amended. \<open>getLocationWithFallback\<close> starts at High and moves exactly one step
  down the ladder High, Balanced, Low after each step that fails (the position request or
  the send of its sample), with no backoff; so when its first two steps fail the third
  attempt is made at Low. \<open>getCurrentPositionWithErrorHandling\<close>, with three retries,
  recovery on and High accuracy, waits 1000, 2000 and 3000 milliseconds after its first,
  second and third failure and makes its attempts at High, High, Balanced and Low: the
  tier is first lowered after the second failure, and Low is reached on the fourth attempt.
\<close>

theorem ladder_and_retry_tiers:
  "delays (newEvents w (snd (getLocationWithFallback env userId w))) = []
   \<and> attempts (newEvents w (snd (getLocationWithFallback env userId w))) =
       (case acquireAndSend env userId High w of
          (Inr u, w1) \<Rightarrow> [High]
        | (Inl e1, w1) \<Rightarrow>
            (case acquireAndSend env userId Balanced w1 of
               (Inr u, w2) \<Rightarrow> [High, Balanced]
             | (Inl e2, w2) \<Rightarrow> [High, Balanced, Low]))
   \<and> (effectiveMaxRetries options = 3 \<and> attemptRecovery options \<longrightarrow>
        attempts (newEvents w (snd (getCurrentPositionWithErrorHandling env True options High w))) =
          (case gps env (length (trace w)) High of
             Some l \<Rightarrow> [High]
           | None \<Rightarrow>
               (case gps env (length (trace w) + 2) High of
                  Some l \<Rightarrow> [High, High]
                | None \<Rightarrow>
                    (case gps env (length (trace w) + 4) Balanced of
                       Some l \<Rightarrow> [High, High, Balanced]
                     | None \<Rightarrow> [High, High, Balanced, Low])))
        \<and> delays (newEvents w (snd (getCurrentPositionWithErrorHandling env True options High w))) =
            take (length (attempts (newEvents w
                    (snd (getCurrentPositionWithErrorHandling env True options High w)))) - 1)
              [1000, 2000, 3000])"
proof (intro conjI impI)
  obtain evs where l: "trace (snd (getLocationWithFallback env userId w)) = trace w @ evs"
      "delays evs = []"
      "attempts evs =
         (case acquireAndSend env userId High w of
            (Inr u, w1) \<Rightarrow> [High]
          | (Inl e1, w1) \<Rightarrow>
              (case acquireAndSend env userId Balanced w1 of
                 (Inr u, w2) \<Rightarrow> [High, Balanced]
               | (Inl e2, w2) \<Rightarrow> [High, Balanced, Low]))"
    using ladder_attempts [of env userId w] by blast
  have n: "newEvents w (snd (getLocationWithFallback env userId w)) = evs"
    using l(1) by (rule newEvents_append)
  show "delays (newEvents w (snd (getLocationWithFallback env userId w))) = []"
    using n l(2) by simp
  show "attempts (newEvents w (snd (getLocationWithFallback env userId w))) =
       (case acquireAndSend env userId High w of
          (Inr u, w1) \<Rightarrow> [High]
        | (Inl e1, w1) \<Rightarrow>
            (case acquireAndSend env userId Balanced w1 of
               (Inr u, w2) \<Rightarrow> [High, Balanced]
             | (Inl e2, w2) \<Rightarrow> [High, Balanced, Low]))"
    using n l(3) by simp
next
  assume a: "effectiveMaxRetries options = 3 \<and> attemptRecovery options"
  let ?w' = "snd (getCurrentPositionWithErrorHandling env True options High w)"
  have eq: "?w' = snd (retryLoop env options 3 0 High w)"
    using a by (simp add: getCurrentPositionWithErrorHandling_def)
  obtain evs where r: "trace (snd (retryLoop env options 3 0 High w)) = trace w @ evs"
      "attempts evs =
        (case gps env (length (trace w)) High of
           Some l \<Rightarrow> [High]
         | None \<Rightarrow>
             (case gps env (length (trace w) + 2) High of
                Some l \<Rightarrow> [High, High]
              | None \<Rightarrow>
                  (case gps env (length (trace w) + 4) Balanced of
                     Some l \<Rightarrow> [High, High, Balanced]
                   | None \<Rightarrow> [High, High, Balanced, Low])))"
      "delays evs = take (length (attempts evs) - 1) [1000, 2000, 3000]"
    using retryLoop_three [of options env w] a by blast
  have n: "newEvents w ?w' = evs"
    using r(1) eq by (simp add: newEvents_def)
  show "attempts (newEvents w ?w') =
          (case gps env (length (trace w)) High of
             Some l \<Rightarrow> [High]
           | None \<Rightarrow>
               (case gps env (length (trace w) + 2) High of
                  Some l \<Rightarrow> [High, High]
                | None \<Rightarrow>
                    (case gps env (length (trace w) + 4) Balanced of
                       Some l \<Rightarrow> [High, High, Balanced]
                     | None \<Rightarrow> [High, High, Balanced, Low])))"
    using n r(2) by simp
  show "delays (newEvents w ?w') = take (length (attempts (newEvents w ?w')) - 1) [1000, 2000, 3000]"
    using n r(3) by simp
qed

text \<open>
  C4, witness: both functions with the position source down, from the initial module
  state.
\<close>

theorem ladder_and_retry_tiers_witness:
  "delays (newEvents (initialWorld None 0)
      (snd (getLocationWithFallback gpsDown ''driver-1'' (initialWorld None 0)))) = []
   \<and> attempts (newEvents (initialWorld None 0)
      (snd (getLocationWithFallback gpsDown ''driver-1'' (initialWorld None 0)))) =
       [High, Balanced, Low]
   \<and> attempts (newEvents (initialWorld None 0)
      (snd (getCurrentPositionWithErrorHandling gpsDown True DEFAULT_OPTIONS High
         (initialWorld None 0)))) = [High, High, Balanced, Low]
   \<and> delays (newEvents (initialWorld None 0)
      (snd (getCurrentPositionWithErrorHandling gpsDown True DEFAULT_OPTIONS High
         (initialWorld None 0)))) = [1000, 2000, 3000]"
proof -
  have h: "effectiveMaxRetries DEFAULT_OPTIONS = 3 \<and> attemptRecovery DEFAULT_OPTIONS"
    by (simp add: effectiveMaxRetries_def orElse_def DEFAULT_OPTIONS_def)
  have s1: "acquireAndSend gpsDown ''driver-1'' High (initialWorld None 0) =
      (Inl LocationError, (initialWorld None 0)\<lparr>trace := [GetPosition High False]\<rparr>)"
    by (simp add: acquireAndSend_def call_defs gpsDown_gps initialWorld_def)
  have s2: "fst (acquireAndSend gpsDown ''driver-1'' Balanced
       ((initialWorld None 0)\<lparr>trace := [GetPosition High False]\<rparr>)) = Inl LocationError"
    by (simp add: acquireAndSend_def call_defs gpsDown_gps initialWorld_def)
  show ?thesis
    using h s1 s2 ladder_and_retry_tiers
      [where env = gpsDown and userId = "''driver-1''" and w = "initialWorld None 0"
         and options = DEFAULT_OPTIONS]
    by (simp add: gpsDown_gps split: prod.splits sum.splits)
qed


text \<open>
  C5, counterexample. With the default maximum of three retries and the position source
  down, \<open>getCurrentPositionWithErrorHandling\<close> makes four position requests and all four
  fail: one failure more than the configured maximum.
\<close>

theorem four_failed_attempts_with_three_retries:
  "effectiveMaxRetries DEFAULT_OPTIONS = 3
   \<and> trace (snd (getCurrentPositionWithErrorHandling gpsDown True DEFAULT_OPTIONS High
        (initialWorld None 0))) =
     [GetPosition High False, Delay 1000, GetPosition High False, Delay 2000,
      GetPosition Balanced False, Delay 3000, GetPosition Low False, HandleLocationError]
   \<and> length (attempts (trace (snd (getCurrentPositionWithErrorHandling gpsDown True
        DEFAULT_OPTIONS High (initialWorld None 0))))) = 4"
proof -
  have m: "effectiveMaxRetries DEFAULT_OPTIONS = 3"
    by (simp add: effectiveMaxRetries_def orElse_def DEFAULT_OPTIONS_def)
  show ?thesis
    using m by (simp add: retry_run_gpsDown)
qed

text \<open>
  C5, as amended. In one invocation of \<open>getCurrentPositionWithErrorHandling\<close> the number
  of position requests never exceeds the configured maximum plus one (the first attempt and
  at most \<open>maxRetries\<close> retries; none at all when the maximum is negative), and in one
  invocation of \<open>getLocationWithFallback\<close> it never exceeds three. In both, the accuracy
  of an attempt is never higher than that of an earlier attempt of the same invocation.
\<close>

theorem attempts_bounded_and_tiers_never_rise:
  "int (length (attempts (newEvents w
          (snd (getCurrentPositionWithErrorHandling env hasPermission options acc w)))))
     \<le> max 0 (effectiveMaxRetries options + 1)
   \<and> sorted_wrt (\<lambda>a b. accuracy_rank b \<le> accuracy_rank a)
        (attempts (newEvents w
          (snd (getCurrentPositionWithErrorHandling env hasPermission options acc w))))
   \<and> length (attempts (newEvents w (snd (getLocationWithFallback env userId w)))) \<le> 3
   \<and> sorted_wrt (\<lambda>a b. accuracy_rank b \<le> accuracy_rank a)
        (attempts (newEvents w (snd (getLocationWithFallback env userId w))))"
proof -
  let ?w' = "snd (getCurrentPositionWithErrorHandling env hasPermission options acc w)"
  have retry: "int (length (attempts (newEvents w ?w'))) \<le> max 0 (effectiveMaxRetries options + 1)
      \<and> sorted_wrt (\<lambda>a b. accuracy_rank b \<le> accuracy_rank a) (attempts (newEvents w ?w'))"
  proof (cases hasPermission)
    case False
    then show ?thesis
      by (simp add: getCurrentPositionWithErrorHandling_def showLocationErrorAlert_def
          newEvents_def)
  next
    case True
    obtain evs where r:
      "trace (snd (retryLoop env options (effectiveMaxRetries options) 0 acc w)) = trace w @ evs"
      "int (length (attempts evs)) \<le> max 0 (effectiveMaxRetries options + 1 - 0)"
      "sorted_wrt (\<lambda>a b. accuracy_rank b \<le> accuracy_rank a) (attempts evs)"
      using retryLoop_attempts [of env options "effectiveMaxRetries options" 0 acc w] by blast
    have n: "newEvents w ?w' = evs"
      using True r(1) by (simp add: getCurrentPositionWithErrorHandling_def newEvents_def)
    show ?thesis using n r(2,3) by simp
  qed
  have ladder: "length (attempts (newEvents w (snd (getLocationWithFallback env userId w)))) \<le> 3
      \<and> sorted_wrt (\<lambda>a b. accuracy_rank b \<le> accuracy_rank a)
           (attempts (newEvents w (snd (getLocationWithFallback env userId w))))"
    using ladder_attempts_cases [of w env userId] by auto
  from retry ladder show ?thesis by blast
qed

text \<open>
  C5, witness: both functions with the position source down and the default options.
\<close>

theorem attempts_bounded_and_tiers_never_rise_witness:
  "int (length (attempts (newEvents (initialWorld None 0)
          (snd (getCurrentPositionWithErrorHandling gpsDown True DEFAULT_OPTIONS High
             (initialWorld None 0))))))
     \<le> 4
   \<and> sorted_wrt (\<lambda>a b. accuracy_rank b \<le> accuracy_rank a)
        (attempts (newEvents (initialWorld None 0)
          (snd (getCurrentPositionWithErrorHandling gpsDown True DEFAULT_OPTIONS High
             (initialWorld None 0)))))
   \<and> length (attempts (newEvents (initialWorld None 0)
        (snd (getLocationWithFallback gpsDown ''driver-1'' (initialWorld None 0))))) \<le> 3
   \<and> sorted_wrt (\<lambda>a b. accuracy_rank b \<le> accuracy_rank a)
        (attempts (newEvents (initialWorld None 0)
          (snd (getLocationWithFallback gpsDown ''driver-1'' (initialWorld None 0)))))"
proof -
  have h: "max 0 (effectiveMaxRetries DEFAULT_OPTIONS + 1) = 4"
    by (simp add: effectiveMaxRetries_def orElse_def DEFAULT_OPTIONS_def)
  show ?thesis
    using attempts_bounded_and_tiers_never_rise
      [where env = gpsDown and userId = "''driver-1''" and w = "initialWorld None 0"
         and options = DEFAULT_OPTIONS and hasPermission = True and acc = High]
    unfolding h by blast
qed

text \<open>
  C6, the run that breaks it. Every position request fails, a sample is stored, and the
  send of the stored sample is rejected by the network: \<open>getLocationWithFallback\<close> does
  not resolve to true or false, it rejects with the network error.
\<close>

theorem fallback_send_failure_rejects:
  "fst (getLocationWithFallback allDown ''driver-1'' (initialWorld (Some (sampleAt 10)) 0)) =
     Inl NetworkError
   \<and> trace (snd (getLocationWithFallback allDown ''driver-1''
        (initialWorld (Some (sampleAt 10)) 0))) =
     [GetPosition High False, GetPosition Balanced False, GetPosition Low False, GetItem True,
      UpdateDriverLocation ''driver-1'' 9 7 False]"
  by (simp add: allDown_def ladder_defs call_defs scenario_defs)

text \<open>
  What \<open>getLocationWithFallback\<close> does when all three position requests fail, for every
  answer of the storage and the network: nothing is written to the store; with nothing
  stored (or an unreadable store) it resolves to false and delivers nothing; with a stored
  sample and a working network it delivers that sample and resolves to true; with a stored
  sample and a failing network it rejects.
\<close>

lemma ladder_exhausted_outcomes:
  assumes "gps env (length (trace w)) High = None"
    and "gps env (length (trace w) + 1) Balanced = None"
    and "gps env (length (trace w) + 2) Low = None"
  shows "storage (snd (getLocationWithFallback env userId w)) = storage w
    \<and> (case (if getItemOk env (length (trace w) + 3) then storage w else None) of
          None \<Rightarrow>
            fst (getLocationWithFallback env userId w) = Inr False
            \<and> delivered (newEvents w (snd (getLocationWithFallback env userId w))) = []
        | Some l \<Rightarrow>
            if net env (length (trace w) + 4)
            then fst (getLocationWithFallback env userId w) = Inr True
              \<and> delivered (newEvents w (snd (getLocationWithFallback env userId w))) =
                  [(userId, latitude (coords l), longitude (coords l))]
            else fst (getLocationWithFallback env userId w) = Inl NetworkError
              \<and> delivered (newEvents w (snd (getLocationWithFallback env userId w))) = [])"
  using assms
  by (simp add: ladder_defs call_defs newEvents_def eval_nat_numeral split: option.splits)

text \<open>
  C7, counterexample. The High-accuracy position request succeeds and the send of that
  sample is rejected. The ladder goes on: it requests a position at Balanced accuracy,
  saves it and sends it, and resolves to true.
\<close>

theorem ladder_reacquires_after_failed_send:
  "getLocationWithFallback earlySendsFail ''driver-1'' (initialWorld None 0) =
     (Inr True,
      (initialWorld None 0)\<lparr>storage := Some (sampleAt 20),
        trace := [GetPosition High True, SetItem (sampleAt 20) True,
                  UpdateDriverLocation ''driver-1'' 9 7 False,
                  GetPosition Balanced True, SetItem (sampleAt 20) True,
                  UpdateDriverLocation ''driver-1'' 9 7 True]\<rparr>)"
  by (simp add: earlySendsFail_def ladder_defs call_defs scenario_defs)

text \<open>
  C7, as amended. In the foreground watch callback a rejected send ends the invocation:
  the callback has saved the sample and tried the send once, does nothing more, leaves
  \<open>lastUpdateTime\<close> as it was and returns normally. In \<open>getLocationWithFallback\<close> a
  rejected send is handled like a failed position request: after a successful High request
  whose send is rejected, the next external call is a position request at Balanced
  accuracy.
\<close>

theorem send_failure_ends_callback_but_not_ladder:
  "(\<not> net env (Suc (length (trace w))) \<longrightarrow>
      newEvents w (watchCallback env userId location w) =
        [SetItem location (setItemOk env (length (trace w))),
         UpdateDriverLocation userId (latitude (coords location)) (longitude (coords location))
           False]
      \<and> lastUpdateTime (watchCallback env userId location w) = lastUpdateTime w)
   \<and> (gps env (length (trace w)) High = Some location \<and> \<not> net env (length (trace w) + 2) \<longrightarrow>
      (\<exists>ok evs. newEvents w (snd (getLocationWithFallback env userId w)) =
         GetPosition High True # SetItem location (setItemOk env (Suc (length (trace w))))
         # UpdateDriverLocation userId (latitude (coords location)) (longitude (coords location))
             False
         # GetPosition Balanced ok # evs))"
proof (intro conjI impI)
  assume "\<not> net env (Suc (length (trace w)))"
  then show "newEvents w (watchCallback env userId location w) =
        [SetItem location (setItemOk env (length (trace w))),
         UpdateDriverLocation userId (latitude (coords location)) (longitude (coords location))
           False]"
    by (simp add: watchCallback_def call_defs newEvents_def)
next
  assume "\<not> net env (Suc (length (trace w)))"
  then show "lastUpdateTime (watchCallback env userId location w) = lastUpdateTime w"
    by (simp add: watchCallback_def call_defs)
next
  assume a: "gps env (length (trace w)) High = Some location \<and> \<not> net env (length (trace w) + 2)"
  let ?w1 = "snd (acquireAndSend env userId High w)"
  have f1: "fst (acquireAndSend env userId High w) = Inl NetworkError"
    using a by (simp add: acquireAndSend_def call_defs)
  have t1: "trace ?w1 = trace w @
       [GetPosition High True, SetItem location (setItemOk env (Suc (length (trace w)))),
        UpdateDriverLocation userId (latitude (coords location)) (longitude (coords location))
          False]"
    using a by (simp add: acquireAndSend_def call_defs)
  have s1: "acquireAndSend env userId High w = (Inl NetworkError, ?w1)"
    using f1 by (simp add: prod_eq_iff)
  obtain ok evs where t: "trace (snd (getLocationWithFallback env userId w)) =
           trace ?w1 @ GetPosition Balanced ok # evs"
    using ladder_after_first_failure [OF s1] by blast
  show "\<exists>ok evs. newEvents w (snd (getLocationWithFallback env userId w)) =
         GetPosition High True # SetItem location (setItemOk env (Suc (length (trace w))))
         # UpdateDriverLocation userId (latitude (coords location)) (longitude (coords location))
             False
         # GetPosition Balanced ok # evs"
    using t t1 by (simp add: newEvents_def)
qed

text \<open>
  C7, witness: the callback and the ladder in an environment whose first sends are
  rejected.
\<close>

theorem send_failure_ends_callback_but_not_ladder_witness:
  "newEvents (initialWorld None 0)
      (watchCallback earlySendsFail ''driver-1'' (sampleAt 20) (initialWorld None 0)) =
        [SetItem (sampleAt 20) True, UpdateDriverLocation ''driver-1'' 9 7 False]
   \<and> lastUpdateTime (watchCallback earlySendsFail ''driver-1'' (sampleAt 20)
        (initialWorld None 0)) = 0
   \<and> (\<exists>ok evs. newEvents (initialWorld None 0)
         (snd (getLocationWithFallback earlySendsFail ''driver-1'' (initialWorld None 0))) =
         GetPosition High True # SetItem (sampleAt 20) True
         # UpdateDriverLocation ''driver-1'' 9 7 False # GetPosition Balanced ok # evs)"
proof -
  have h1: "\<not> net earlySendsFail (Suc (length (trace (initialWorld None 0))))"
    by (simp add: earlySendsFail_def scenario_defs)
  have h2: "gps earlySendsFail (length (trace (initialWorld None 0))) High = Some (sampleAt 20)
      \<and> \<not> net earlySendsFail (length (trace (initialWorld None 0)) + 2)"
    by (simp add: earlySendsFail_def scenario_defs)
  have s: "setItemOk earlySendsFail n" for n
    by (simp add: earlySendsFail_def scenario_defs)
  have l: "lastUpdateTime (initialWorld None 0) = 0"
      "latitude (coords (sampleAt 20)) = 9" "longitude (coords (sampleAt 20)) = 7"
    by (simp_all add: scenario_defs)
  show ?thesis
    using h1 h2 send_failure_ends_callback_but_not_ladder
      [where env = earlySendsFail and userId = "''driver-1''" and w = "initialWorld None 0"
         and location = "sampleAt 20"]
    by (simp add: s l)
qed

section \<open>The time of the last update\<close>

text \<open>
  The accessor returns the module variable. The variable is 0 in the initial state; the
  foreground watch callback sets it to the clock after a successful send and leaves it
  otherwise; the background location task sets it whenever it returns \<open>NewData\<close>;
  \<open>stopTracking\<close> and the passing of time leave it.
\<close>

lemma getLastUpdateTime_by_path:
  "getLastUpdateTime w = lastUpdateTime w
   \<and> getLastUpdateTime (initialWorld stored t) = 0
   \<and> getLastUpdateTime (watchCallback env userId location w) =
       (if net env (Suc (length (trace w))) then now w else getLastUpdateTime w)
   \<and> getLastUpdateTime (snd (locationTrackingTask env error data w)) =
       (if fst (locationTrackingTask env error data w) = NewData then now w
        else getLastUpdateTime w)
   \<and> getLastUpdateTime (stopTracking env w) = getLastUpdateTime w
   \<and> getLastUpdateTime (advanceTime ms w) = getLastUpdateTime w"
  by (simp add: getLastUpdateTime_def watchCallback_def locationTrackingTask_def
      stopTracking_def advanceTime_def call_defs initialWorld_def Let_def
      split: option.splits list.splits prod.splits sum.splits)

text \<open>
  C10, the run that breaks it. In a fresh module state the accessor returns 0. The
  background location task is then handed a location while no user is stored: it saves the
  sample, sends nothing, and still sets \<open>lastUpdateTime\<close> to the clock, 5000. The accessor
  now returns 5000 although no update has been delivered. A foreground update whose send
  is rejected, from the same state, leaves it at 0.
\<close>

theorem location_task_sets_time_with_nothing_sent:
  "getLastUpdateTime (initialWorld None 5000) = 0
   \<and> fst (locationTrackingTask noUserEnv False (Some [sampleAt 4000]) (initialWorld None 5000)) =
       NewData
   \<and> delivered (trace (snd (locationTrackingTask noUserEnv False (Some [sampleAt 4000])
        (initialWorld None 5000)))) = []
   \<and> getLastUpdateTime (snd (locationTrackingTask noUserEnv False (Some [sampleAt 4000])
        (initialWorld None 5000))) = 5000
   \<and> getLastUpdateTime (watchCallback allDown ''driver-1'' (sampleAt 4000)
        (initialWorld None 5000)) = 0"
  by (simp add: getLastUpdateTime_def locationTrackingTask_def watchCallback_def noUserEnv_def
      allDown_def call_defs scenario_defs Let_def)

section \<open>Adaptive parameters\<close>

text \<open>
  C8. The parameters are a function of the mode alone. An available driver is tracked at
  Balanced accuracy, every 2 minutes or 50 metres in the foreground and every 5 minutes in
  the background; an unavailable driver at Low accuracy, every 10 minutes or 250 metres in
  the foreground and every 15 minutes in the background. So the available mode has the
  strictly shorter interval and the strictly smaller distance on both paths.
\<close>

theorem tracking_parameters_by_mode:
  "foregroundParameters True =
     \<lparr>accuracy = Balanced, timeInterval = 120000, distanceInterval = 50\<rparr>
   \<and> foregroundParameters False =
     \<lparr>accuracy = Low, timeInterval = 600000, distanceInterval = 250\<rparr>
   \<and> backgroundParameters True =
     \<lparr>accuracy = Balanced, timeInterval = 300000, distanceInterval = 50\<rparr>
   \<and> backgroundParameters False =
     \<lparr>accuracy = Low, timeInterval = 900000, distanceInterval = 250\<rparr>
   \<and> accuracy_rank (accuracy (foregroundParameters False))
       < accuracy_rank (accuracy (foregroundParameters True))
   \<and> timeInterval (foregroundParameters True) < timeInterval (foregroundParameters False)
   \<and> distanceInterval (foregroundParameters True)
       < distanceInterval (foregroundParameters False)
   \<and> accuracy_rank (accuracy (backgroundParameters False))
       < accuracy_rank (accuracy (backgroundParameters True))
   \<and> timeInterval (backgroundParameters True) < timeInterval (backgroundParameters False)
   \<and> distanceInterval (backgroundParameters True)
       < distanceInterval (backgroundParameters False)"
  by (simp add: foregroundParameters_def backgroundParameters_def NORMAL_ACCURACY_def
      LOW_ACCURACY_def FOREGROUND_INTERVAL_def BACKGROUND_INTERVAL_def
      AVAILABLE_DRIVER_INTERVAL_def UNAVAILABLE_DRIVER_INTERVAL_def
      AVAILABLE_DISTANCE_FILTER_def UNAVAILABLE_DISTANCE_FILTER_def)

end
